theory Spec2Isabelle
  imports Complex_Main "HOL-Library.Log_Nat"
begin

section \<open>Data of the upload panel (DocumentUpload.jsx)\<close>

text \<open>
  The parsed body of \<^verbatim>\<open>GET /job/{id}\<close>, as far as the code reads it: the fields
  \<^verbatim>\<open>status\<close> and \<^verbatim>\<open>error\<close>. \<open>None\<close> is a field that is absent (or not a string, so
  that no \<^verbatim>\<open>===\<close> against a string literal holds). \<open>Null\<close> is the JSON value
  \<^verbatim>\<open>null\<close>: reading a property of it throws a TypeError.
\<close>

datatype json = Obj "string option" "string option" | Null

text \<open>
  One status request: either \<^verbatim>\<open>fetch\<close> and \<^verbatim>\<open>response.json()\<close> both resolve
  (\<open>Body\<close>), or one of them rejects (\<open>Rejected\<close>: network error, body that is not JSON).
  A \<open>server\<close> gives the answers of one polling round, by job id.
\<close>

datatype response = Body json | Rejected

type_synonym server = "string \<Rightarrow> response"

datatype js_error = TypeError

text \<open>An element of \<^verbatim>\<open>processingDetails\<close>: what the panel shows for one file.\<close>

record detail =
  filename :: string
  status :: string
  jobId :: "string option"
  error :: "string option"

text \<open>An element of \<^verbatim>\<open>data.details\<close> in the reply of \<^verbatim>\<open>POST /upload-multiple\<close>.\<close>

record file_detail =
  fd_filename :: string
  fd_status :: "string option"
  job_id :: "string option"
  fd_error :: "string option"

record progress =
  total :: "int option"
  successful :: "int option"
  failed :: "int option"
  completed :: "int option"

text \<open>
  The message of the Error caught in \<^verbatim>\<open>handleUpload\<close>: the server's \<^verbatim>\<open>detail\<close>, the
  text \<^verbatim>\<open>HTTP <status>\<close>, or the message of an exception thrown by the runtime.
\<close>

datatype message = Detail string | Http nat | Thrown string | TypeErrorMessage

text \<open>
  The values given to \<^verbatim>\<open>setUploadStatus\<close>, one constructor for each template in the
  source, with the template's holes as arguments:
  \<^item> \<open>Empty\<close>: the empty string;
  \<^item> \<open>SelectFile\<close>: "Please select at least one file";
  \<^item> \<open>MaxFiles\<close>: "Maximum 20 files allowed per upload";
  \<^item> \<open>UploadingFiles\<close>: "Uploading files...";
  \<^item> \<open>UploadComplete\<close>: "Upload complete! Processing document...";
  \<^item> \<open>Uploaded s t\<close>: "Uploaded s/t files. Processing...";
  \<^item> \<open>UploadFailed m\<close>: "Upload failed: m";
  \<^item> \<open>DocumentProcessed\<close>: "Document processed successfully!";
  \<^item> \<open>ProcessingFailed e\<close>: "Processing failed: e";
  \<^item> \<open>ProcessingDocument m s\<close>: "Processing document... (m m s s)";
  \<^item> \<open>TakingLonger\<close>: "Processing is taking longer than expected...";
  \<^item> \<open>Processing c t p e f\<close>: "Processing: c/t complete (p%) - e m elapsed", followed by
    " - f failed" when \<open>f\<close> is \<open>Some\<close>;
  \<^item> \<open>AllProcessed t\<close>: "All t documents processed successfully!";
  \<^item> \<open>ProcessingComplete c f\<close>: "Processing complete: c successful, f failed".
\<close>

datatype status_msg =
    Empty
  | SelectFile
  | MaxFiles
  | UploadingFiles
  | UploadComplete
  | Uploaded "int option" "int option"
  | UploadFailed message
  | DocumentProcessed
  | ProcessingFailed string
  | ProcessingDocument nat nat
  | TakingLonger
  | Processing nat nat int nat "nat option"
  | AllProcessed nat
  | ProcessingComplete nat nat

text \<open>The React state of the component.\<close>

record view =
  files :: "string list"
  uploading :: bool
  uploadStatus :: status_msg
  progress :: "progress option"
  processingDetails :: "detail list"

text \<open>
  The state of one poll loop (the closure of \<^verbatim>\<open>pollJobCompletion\<close> or
  \<^verbatim>\<open>pollJobsCompletion\<close>) and what it has done so far: the counter \<^verbatim>\<open>attempts\<close>, the delay
  in milliseconds of the pending \<^verbatim>\<open>setTimeout\<close> of the next check (\<open>None\<close> when no check is
  pending), the job ids of the status requests issued, the number of timers set for
  \<^verbatim>\<open>onUploadSuccess\<close>, and the number of \<^verbatim>\<open>console.error\<close> calls.
\<close>

record loop =
  attempts :: nat
  timer :: "nat option"
  requests :: "string list"
  notified :: nat
  logged :: nat

datatype request =
    PostUpload string
  | PostUploadMultiple "string list"
  | PostQuery string

text \<open>The poll loop that \<^verbatim>\<open>handleUpload\<close> starts, with the arguments it is called on.\<close>

datatype poll = SinglePoll string string | MultiPoll "string list" "file_detail list"

text \<open>
  The body of a 2xx reply to an upload, as far as the code reads it; \<open>None\<close> is an
  absent field. The body is taken to be a JSON object.
\<close>

record upload_body =
  body_job_id :: "string option"
  total_files :: "int option"
  body_successful :: "int option"
  body_failed :: "int option"
  details :: "file_detail list option"
  job_ids :: "string list option"

text \<open>
  The outcome of the upload request: \<^verbatim>\<open>fetch\<close> rejects or a 2xx body is not JSON (with the
  error's message); a non-2xx reply with its status code and the \<^verbatim>\<open>detail\<close> of its body
  (\<open>None\<close> when the body is not JSON or has none); a 2xx reply.
\<close>

datatype upload_reply = NetworkError string | NotOk nat "string option" | Ok upload_body

section \<open>The operations\<close>

definition maxAttempts :: nat where
  "maxAttempts = 60"

definition handleFileChange :: "string list \<Rightarrow> view \<Rightarrow> view" where
  "handleFileChange selectedFiles v =
     v\<lparr>files := selectedFiles, uploadStatus := Empty, progress := None,
       processingDetails := []\<rparr>"

text \<open>\<^verbatim>\<open>errorData.detail || `HTTP ${response.status}`\<close>: an empty string is falsy.\<close>

definition error_message :: "nat \<Rightarrow> string option \<Rightarrow> message" where
  "error_message code d =
     (case d of None \<Rightarrow> Http code | Some s \<Rightarrow> if s = [] then Http code else Detail s)"

definition initial_detail :: "file_detail \<Rightarrow> detail" where
  "initial_detail d =
     \<lparr>filename = fd_filename d,
      status = (if fd_status d = Some ''queued'' then ''processing'' else ''failed''),
      jobId = job_id d,
      error = fd_error d\<rparr>"

text \<open>
  \<^verbatim>\<open>pollJobCompletion\<close> and \<^verbatim>\<open>pollJobsCompletion\<close> only initialise the counter and set the
  first timer, one second ahead.
\<close>

definition start_loop :: loop where
  "start_loop = \<lparr>attempts = 0, timer = Some 1000, requests = [], notified = 0, logged = 0\<rparr>"

text \<open>
  \<^verbatim>\<open>handleUpload\<close>, given the outcome of the request it may send. It returns the new
  state, the requests sent and the poll loop started.
\<close>

definition upload_single :: "string \<Rightarrow> view \<Rightarrow> upload_reply \<Rightarrow> view \<times> request list \<times> poll option" where
  "upload_single f v1 reply =
     (case reply of
        NetworkError m \<Rightarrow>
          (v1\<lparr>uploadStatus := UploadFailed (Thrown m), uploading := False\<rparr>, [PostUpload f], None)
      | NotOk code d \<Rightarrow>
          (v1\<lparr>uploadStatus := UploadFailed (error_message code d), uploading := False\<rparr>,
           [PostUpload f], None)
      | Ok data \<Rightarrow>
          (v1\<lparr>uploadStatus := UploadComplete,
              processingDetails :=
                [\<lparr>filename = f, status = ''processing'', jobId = body_job_id data, error = None\<rparr>],
              files := [], uploading := False\<rparr>,
           [PostUpload f],
           (case body_job_id data of
              None \<Rightarrow> None
            | Some j \<Rightarrow> if j = [] then None else Some (SinglePoll j f))))"

definition upload_multiple :: "string list \<Rightarrow> view \<Rightarrow> upload_reply \<Rightarrow> view \<times> request list \<times> poll option" where
  "upload_multiple fs v1 reply =
     (case reply of
        NetworkError m \<Rightarrow>
          (v1\<lparr>uploadStatus := UploadFailed (Thrown m), uploading := False\<rparr>,
           [PostUploadMultiple fs], None)
      | NotOk code d \<Rightarrow>
          (v1\<lparr>uploadStatus := UploadFailed (error_message code d), uploading := False\<rparr>,
           [PostUploadMultiple fs], None)
      | Ok data \<Rightarrow>
          (let v2 = v1\<lparr>progress := Some \<lparr>total = total_files data, successful = body_successful data,
                                          failed = body_failed data, completed = Some 0\<rparr>,
                        uploadStatus := Uploaded (body_successful data) (total_files data)\<rparr>
           in case details data of
                None \<Rightarrow>
                  (v2\<lparr>uploadStatus := UploadFailed TypeErrorMessage, uploading := False\<rparr>,
                   [PostUploadMultiple fs], None)
              | Some ds \<Rightarrow>
                  (v2\<lparr>processingDetails := map initial_detail ds, files := [], uploading := False\<rparr>,
                   [PostUploadMultiple fs],
                   (case job_ids data of
                      None \<Rightarrow> None
                    | Some js \<Rightarrow> if length js > 0 then Some (MultiPoll js ds) else None))))"

definition handleUpload :: "view \<Rightarrow> upload_reply \<Rightarrow> view \<times> request list \<times> poll option" where
  "handleUpload v reply =
     (if length (files v) = 0 then (v\<lparr>uploadStatus := SelectFile\<rparr>, [], None)
      else if length (files v) > 20 then (v\<lparr>uploadStatus := MaxFiles\<rparr>, [], None)
      else
        (let v1 = v\<lparr>uploading := True, uploadStatus := UploadingFiles, processingDetails := []\<rparr>
         in case files v of
              [f] \<Rightarrow> upload_single f v1 reply
            | fs \<Rightarrow> upload_multiple fs v1 reply))"

subsection \<open>The single-job poll loop\<close>

text \<open>
  One run of \<^verbatim>\<open>checkStatus\<close>. \<open>cb\<close> says whether the prop \<^verbatim>\<open>onUploadSuccess\<close> is given.
  An exception (a rejected request, a body that is \<^verbatim>\<open>null\<close>) is caught and logged, and
  nothing else happens.
\<close>

definition checkStatus :: "bool \<Rightarrow> string \<Rightarrow> string \<Rightarrow> server \<Rightarrow> loop \<times> view \<Rightarrow> loop \<times> view" where
  "checkStatus cb jid fname srv s =
     (let l = (fst s)\<lparr>timer := None, requests := requests (fst s) @ [jid]\<rparr>; v = snd s
      in case srv jid of
           Rejected \<Rightarrow> (l\<lparr>logged := Suc (logged l)\<rparr>, v)
         | Body Null \<Rightarrow> (l\<lparr>logged := Suc (logged l)\<rparr>, v)
         | Body (Obj st err) \<Rightarrow>
             if st = Some ''finished'' then
               (l\<lparr>notified := (if cb then Suc (notified l) else notified l)\<rparr>,
                v\<lparr>processingDetails :=
                     [\<lparr>filename = fname, status = ''complete'', jobId = Some jid, error = None\<rparr>],
                  uploadStatus := DocumentProcessed\<rparr>)
             else if st = Some ''failed'' then
               (l,
                v\<lparr>processingDetails :=
                     [\<lparr>filename = fname, status = ''failed'', jobId = Some jid, error = err\<rparr>],
                  uploadStatus :=
                     ProcessingFailed
                       (case err of None \<Rightarrow> ''Unknown error''
                        | Some e \<Rightarrow> if e = [] then ''Unknown error'' else e)\<rparr>)
             else if attempts l < maxAttempts then
               (let a = Suc (attempts l)
                in (l\<lparr>attempts := a, timer := Some 2000\<rparr>,
                    v\<lparr>uploadStatus := ProcessingDocument (a * 2 div 60) (a * 2 mod 60)\<rparr>))
             else (l, v\<lparr>uploadStatus := TakingLonger\<rparr>))"

text \<open>
  The loop over time: each element of the list is the server at the moment a timer fires.
  A loop with no pending timer does nothing more.
\<close>

fun run_checkStatus :: "bool \<Rightarrow> string \<Rightarrow> string \<Rightarrow> server list \<Rightarrow> loop \<times> view \<Rightarrow> loop \<times> view" where
  "run_checkStatus cb jid fname [] s = s"
| "run_checkStatus cb jid fname (srv # rest) s =
     (case timer (fst s) of
        None \<Rightarrow> s
      | Some ms \<Rightarrow> run_checkStatus cb jid fname rest (checkStatus cb jid fname srv s))"

subsection \<open>The multi-job poll loop\<close>

text \<open>The request of one job, inside its own \<^verbatim>\<open>try\<close>: a rejection becomes the status "unknown".\<close>

definition fetch_status :: "server \<Rightarrow> string \<Rightarrow> json" where
  "fetch_status srv jid =
     (case srv jid of Rejected \<Rightarrow> Obj (Some ''unknown'') None | Body b \<Rightarrow> b)"

text \<open>
  \<^verbatim>\<open>fileDetails.map((detail, index) => ...)\<close> reading \<^verbatim>\<open>statuses[index].status\<close>: it throws
  when \<^verbatim>\<open>statuses[index]\<close> is undefined (more files than jobs) or \<^verbatim>\<open>null\<close>.
\<close>

definition display_status :: "string option \<Rightarrow> string" where
  "display_status st =
     (if st = Some ''finished'' then ''complete''
      else if st = Some ''failed'' then ''failed'' else ''processing'')"

definition shown_detail :: "file_detail \<Rightarrow> string option \<Rightarrow> string option \<Rightarrow> detail" where
  "shown_detail d st err =
     \<lparr>filename = fd_filename d, status = display_status st, jobId = job_id d,
      error = (if st = Some ''failed'' then err else None)\<rparr>"

fun updatedDetails :: "file_detail list \<Rightarrow> json list \<Rightarrow> js_error + detail list" where
  "updatedDetails [] ss = Inr []"
| "updatedDetails (d # ds) [] = Inl TypeError"
| "updatedDetails (d # ds) (Null # ss) = Inl TypeError"
| "updatedDetails (d # ds) (Obj st err # ss) =
     (case updatedDetails ds ss of
        Inl e \<Rightarrow> Inl e
      | Inr r \<Rightarrow> Inr (shown_detail d st err # r))"

text \<open>\<^verbatim>\<open>statuses.filter(s => s.status === v).length\<close>: it throws on a \<^verbatim>\<open>null\<close> element.\<close>

fun count_status :: "string \<Rightarrow> json list \<Rightarrow> js_error + nat" where
  "count_status v [] = Inr 0"
| "count_status v (Null # ss) = Inl TypeError"
| "count_status v (Obj st err # ss) =
     (case count_status v ss of
        Inl e \<Rightarrow> Inl e
      | Inr n \<Rightarrow> Inr (if st = Some v then Suc n else n))"

text \<open>
  Numbers are IEEE 754 doubles. \<open>to_double x\<close> is the double nearest to a rational
  \<open>x \<ge> 0\<close> (ties to the even significand), for \<open>x\<close> in the range of the normal doubles:
  with \<open>2 ^ e \<le> x < 2 ^ (e + 1)\<close> it is the multiple of \<open>2 ^ (e - 52)\<close> nearest to \<open>x\<close>.
  The counts of a round are integers below \<open>2 ^ 32\<close> (the length of an array), which are
  doubles, and their quotient and its product with 100 are within that range.
\<close>

definition round_even :: "rat \<Rightarrow> int" where
  "round_even m =
     (let f = \<lfloor>m\<rfloor>; d = m - of_int f
      in if d < 1 / 2 then f else if 1 / 2 < d then f + 1 else if even f then f else f + 1)"

definition exponent :: "rat \<Rightarrow> int" where
  "exponent x =
     (let e0 = bitlen (fst (quotient_of x)) - bitlen (snd (quotient_of x))
      in if 2 powi e0 \<le> x then e0 else e0 - 1)"

definition to_double :: "rat \<Rightarrow> rat" where
  "to_double x =
     (if x = 0 then 0
      else (let u = 2 powi (exponent x - 52) in of_int (round_even (x / u)) * u))"

text \<open>\<^verbatim>\<open>Math.round\<close>: the nearest integer, a half rounded up.\<close>

definition math_round :: "rat \<Rightarrow> int" where
  "math_round x = \<lfloor>x + 1 / 2\<rfloor>"

text \<open>
  \<^verbatim>\<open>Math.round((completed / total) * 100)\<close>: the quotient is rounded to a double, and so
  is its product with 100.
\<close>

definition percent :: "nat \<Rightarrow> nat \<Rightarrow> int" where
  "percent n_completed n_total =
     math_round (to_double (to_double (of_nat n_completed / of_nat n_total) * 100))"

definition still_processing :: "nat \<Rightarrow> nat \<Rightarrow> nat \<Rightarrow> int" where
  "still_processing n_total n_completed n_failed = int n_total - int n_completed - int n_failed"

text \<open>\<^verbatim>\<open>setProgress(prev => ({...prev, completed, failed}))\<close>; \<open>prev\<close> may be \<^verbatim>\<open>null\<close>.\<close>

definition merge_progress :: "progress option \<Rightarrow> nat \<Rightarrow> nat \<Rightarrow> progress option" where
  "merge_progress prev n_completed n_failed =
     Some \<lparr>total = (case prev of None \<Rightarrow> None | Some p \<Rightarrow> total p),
           successful = (case prev of None \<Rightarrow> None | Some p \<Rightarrow> successful p),
           failed = Some (int n_failed),
           completed = Some (int n_completed)\<rparr>"

text \<open>
  The part of \<^verbatim>\<open>checkJobs\<close> after the counts: report and reschedule, or finish.
\<close>

definition report :: "bool \<Rightarrow> nat \<Rightarrow> nat \<Rightarrow> nat \<Rightarrow> loop \<times> view \<Rightarrow> loop \<times> view" where
  "report cb n_total n_completed n_failed s =
     (let l = fst s; v = (snd s)\<lparr>progress := merge_progress (progress (snd s)) n_completed n_failed\<rparr>
      in if still_processing n_total n_completed n_failed > 0 then
           (let a = Suc (attempts l)
            in (l\<lparr>attempts := a, timer := Some 3000\<rparr>,
                v\<lparr>uploadStatus :=
                     Processing n_completed n_total (percent n_completed n_total) (a * 3 div 60)
                       (if n_failed > 0 then Some n_failed else None)\<rparr>))
         else
           (l\<lparr>notified := (if cb then Suc (notified l) else notified l)\<rparr>,
            v\<lparr>uploadStatus :=
                 (if n_failed = 0 then AllProcessed n_total
                  else ProcessingComplete n_completed n_failed)\<rparr>))"

text \<open>
  One run of \<^verbatim>\<open>checkJobs\<close>: a request for every job id, then the new details, the counts
  and the report. An exception on the way is caught by the outer \<^verbatim>\<open>try\<close> and logged: what
  was set before it stays, and no timer is set.
\<close>

definition checkJobs :: "bool \<Rightarrow> string list \<Rightarrow> file_detail list \<Rightarrow> server \<Rightarrow> loop \<times> view \<Rightarrow> loop \<times> view" where
  "checkJobs cb jobIds fileDetails srv s =
     (let l = (fst s)\<lparr>timer := None, requests := requests (fst s) @ jobIds\<rparr>;
          v = snd s;
          statuses = map (fetch_status srv) jobIds
      in case updatedDetails fileDetails statuses of
           Inl e \<Rightarrow> (l\<lparr>logged := Suc (logged l)\<rparr>, v)
         | Inr ds \<Rightarrow>
             (let v1 = v\<lparr>processingDetails := ds\<rparr>
              in case count_status ''finished'' statuses of
                   Inl e \<Rightarrow> (l\<lparr>logged := Suc (logged l)\<rparr>, v1)
                 | Inr n_completed \<Rightarrow>
                     (case count_status ''failed'' statuses of
                        Inl e \<Rightarrow> (l\<lparr>logged := Suc (logged l)\<rparr>, v1)
                      | Inr n_failed \<Rightarrow>
                          report cb (length jobIds) n_completed n_failed (l, v1))))"

fun run_checkJobs :: "bool \<Rightarrow> string list \<Rightarrow> file_detail list \<Rightarrow> server list \<Rightarrow> loop \<times> view \<Rightarrow> loop \<times> view" where
  "run_checkJobs cb jobIds fileDetails [] s = s"
| "run_checkJobs cb jobIds fileDetails (srv # rest) s =
     (case timer (fst s) of
        None \<Rightarrow> s
      | Some ms \<Rightarrow> run_checkJobs cb jobIds fileDetails rest (checkJobs cb jobIds fileDetails srv s))"

section \<open>The query panel and the answer renderer\<close>

text \<open>
  A source citation and the body of a reply to \<^verbatim>\<open>POST /query\<close>, as far as the code reads
  them. \<open>answer_detail\<close> is the field \<^verbatim>\<open>detail\<close> that the body of an error reply carries: no
  code of the query panel or of the renderer reads it.
\<close>

record source =
  is_diagram :: bool
  src_filename :: "string option"
  page :: "int option"
  score :: "rat option"

record answer =
  answer_text :: "string option"
  query_type :: "string option"
  execution_time_ms :: "rat option"
  sources :: "source list option"
  answer_detail :: "string option"

datatype query_reply = QueryRejected string | QueryBody nat answer

text \<open>
  \<^verbatim>\<open>question.trim()\<close>. A string is the list of the bytes of its UTF-8 encoding.
  \<open>white_space\<close> lists the encodings of the characters that \<^verbatim>\<open>trim\<close> removes, the
  white space and the line terminators of ECMAScript: U+0009 to U+000D, U+0020, U+00A0,
  U+1680, U+2000 to U+200A, U+2028, U+2029, U+202F, U+205F, U+3000 and U+FEFF.
  \<open>space_at_start\<close> and \<open>space_at_end\<close> give the number of bytes of such a character at
  the start and at the end of a string, 0 when there is none.
\<close>

definition white_space :: "string list" where
  "white_space =
     [[CHR 0x09], [CHR 0x0A], [CHR 0x0B], [CHR 0x0C], [CHR 0x0D], [CHR 0x20],
      [CHR 0xC2, CHR 0xA0],
      [CHR 0xE1, CHR 0x9A, CHR 0x80],
      [CHR 0xE2, CHR 0x80, CHR 0x80], [CHR 0xE2, CHR 0x80, CHR 0x81],
      [CHR 0xE2, CHR 0x80, CHR 0x82], [CHR 0xE2, CHR 0x80, CHR 0x83],
      [CHR 0xE2, CHR 0x80, CHR 0x84], [CHR 0xE2, CHR 0x80, CHR 0x85],
      [CHR 0xE2, CHR 0x80, CHR 0x86], [CHR 0xE2, CHR 0x80, CHR 0x87],
      [CHR 0xE2, CHR 0x80, CHR 0x88], [CHR 0xE2, CHR 0x80, CHR 0x89],
      [CHR 0xE2, CHR 0x80, CHR 0x8A],
      [CHR 0xE2, CHR 0x80, CHR 0xA8], [CHR 0xE2, CHR 0x80, CHR 0xA9],
      [CHR 0xE2, CHR 0x80, CHR 0xAF],
      [CHR 0xE2, CHR 0x81, CHR 0x9F],
      [CHR 0xE3, CHR 0x80, CHR 0x80],
      [CHR 0xEF, CHR 0xBB, CHR 0xBF]]"

definition space_at_start :: "string \<Rightarrow> nat" where
  "space_at_start s =
     (case filter (\<lambda>w. take (length w) s = w) white_space of [] \<Rightarrow> 0 | w # ws \<Rightarrow> length w)"

definition space_at_end :: "string \<Rightarrow> nat" where
  "space_at_end s =
     (case filter (\<lambda>w. drop (length s - length w) s = w) white_space of
        [] \<Rightarrow> 0 | w # ws \<Rightarrow> length w)"

function trim_start :: "string \<Rightarrow> string" where
  "trim_start s = (if space_at_start s = 0 then s else trim_start (drop (space_at_start s) s))"
  by pat_completeness auto
termination
proof (relation "measure length")
  show "wf (measure length)"
    by simp
next
  fix s :: string
  assume a: "space_at_start s \<noteq> 0"
  have "space_at_start [] = 0"
    by (simp add: space_at_start_def white_space_def)
  with a have "s \<noteq> []"
    by auto
  with a show "(drop (space_at_start s) s, s) \<in> measure length"
    by simp
qed

function trim_end :: "string \<Rightarrow> string" where
  "trim_end s = (if space_at_end s = 0 then s else trim_end (take (length s - space_at_end s) s))"
  by pat_completeness auto
termination
proof (relation "measure length")
  show "wf (measure length)"
    by simp
next
  fix s :: string
  assume a: "space_at_end s \<noteq> 0"
  have "space_at_end [] = 0"
    by (simp add: space_at_end_def white_space_def)
  with a have "s \<noteq> []"
    by auto
  with a show "(take (length s - space_at_end s) s, s) \<in> measure length"
    by simp
qed

definition trim :: "string \<Rightarrow> string" where
  "trim q = trim_end (trim_start q)"

text \<open>
  \<^verbatim>\<open>handleQuery\<close>: the requests sent, and the argument given to \<^verbatim>\<open>onQueryResult\<close> (\<open>None\<close>
  when it is not called). \<open>cb\<close> says whether the prop is given. The status code of the
  reply is not looked at.
\<close>

definition handleQuery :: "string \<Rightarrow> bool \<Rightarrow> query_reply \<Rightarrow> request list \<times> answer option" where
  "handleQuery question cb reply =
     (if trim question = [] then ([], None)
      else
        ([PostQuery question],
         (if cb then
            Some (case reply of
                    QueryBody code data \<Rightarrow> data
                  | QueryRejected m \<Rightarrow>
                      \<lparr>answer_text = Some (''Query failed: '' @ m), query_type = Some ''error'',
                       execution_time_ms = Some 0, sources = Some [], answer_detail = None\<rparr>)
          else None)))"

text \<open>
  One line of the source list. \<^verbatim>\<open>{source.score && ...}\<close> shows nothing for an absent
  score, the number itself for the score 0, and the formatted score otherwise.
\<close>

datatype icon = Wrench | Sheet

datatype score_part = NoScore | LiteralZero | Score rat

record entry =
  entry_icon :: icon
  entry_filename :: string
  entry_page :: int
  entry_score :: score_part

definition render_source :: "source \<Rightarrow> entry" where
  "render_source s =
     \<lparr>entry_icon = (if is_diagram s then Wrench else Sheet),
      entry_filename =
        (case src_filename s of None \<Rightarrow> ''Unknown'' | Some f \<Rightarrow> if f = [] then ''Unknown'' else f),
      entry_page = (case page s of None \<Rightarrow> 0 | Some p \<Rightarrow> p),
      entry_score =
        (case score s of None \<Rightarrow> NoScore | Some x \<Rightarrow> if x = 0 then LiteralZero else Score x)\<rparr>"

record rendering =
  queryType :: string
  executionTime :: rat
  answerText :: string
  source_block :: "entry list option"

definition sources_of :: "answer \<Rightarrow> source list" where
  "sources_of a = (case sources a of None \<Rightarrow> [] | Some ss \<Rightarrow> ss)"

definition AnswerDisplay :: "answer option \<Rightarrow> rendering option" where
  "AnswerDisplay ans =
     (case ans of
        None \<Rightarrow> None
      | Some a \<Rightarrow>
          Some \<lparr>queryType =
                  (case query_type a of None \<Rightarrow> ''general''
                   | Some t \<Rightarrow> if t = [] then ''general'' else t),
                executionTime = (case execution_time_ms a of None \<Rightarrow> 0 | Some t \<Rightarrow> t),
                answerText =
                  (case answer_text a of None \<Rightarrow> ''No answer available''
                   | Some t \<Rightarrow> if t = [] then ''No answer available'' else t),
                source_block =
                  (if length (sources_of a) > 0
                   then Some (map render_source (take 5 (sources_of a))) else None)\<rparr>)"

text \<open>The source entries on the screen: those of the block, none when there is no block.\<close>

definition displayed_sources :: "rendering \<Rightarrow> entry list" where
  "displayed_sources r = (case source_block r of None \<Rightarrow> [] | Some es \<Rightarrow> es)"

section \<open>Notions used in the statements\<close>

definition status_field :: "json \<Rightarrow> string option" where
  "status_field s = (case s of Obj st err \<Rightarrow> st | Null \<Rightarrow> None)"

definition error_field :: "json \<Rightarrow> string option" where
  "error_field s = (case s of Obj st err \<Rightarrow> err | Null \<Rightarrow> None)"

definition has_status :: "string \<Rightarrow> json \<Rightarrow> bool" where
  "has_status v s = (status_field s = Some v)"

definition terminal :: "json \<Rightarrow> bool" where
  "terminal s = (has_status ''finished'' s \<or> has_status ''failed'' s)"

text \<open>The statuses a round of the multi-job loop works on.\<close>

definition round_statuses :: "server \<Rightarrow> string list \<Rightarrow> json list" where
  "round_statuses srv jobIds = map (fetch_status srv) jobIds"

text \<open>
  A response that reports the status \<open>v\<close>: the request succeeded and the field
  \<^verbatim>\<open>status\<close> of its body is the string \<open>v\<close>.
\<close>

definition reports :: "string \<Rightarrow> response \<Rightarrow> bool" where
  "reports v r =
     (case r of Body b \<Rightarrow> (case b of Obj st err \<Rightarrow> st = Some v | Null \<Rightarrow> False) | Rejected \<Rightarrow> False)"

text \<open>
  What the two poll loops are compared on: the counter, the requests issued, whether a
  further round is pending, and the per-file details displayed.
\<close>

definition same_display :: "loop \<times> view \<Rightarrow> loop \<times> view \<Rightarrow> bool" where
  "same_display s1 s2 =
     (attempts (fst s1) = attempts (fst s2)
      \<and> requests (fst s1) = requests (fst s2)
      \<and> (timer (fst s1) = None) = (timer (fst s2) = None)
      \<and> processingDetails (snd s1) = processingDetails (snd s2))"

text \<open>The detail of a file that is being processed, as the single upload sets it.\<close>

definition waiting_detail :: "string \<Rightarrow> string \<Rightarrow> detail" where
  "waiting_detail fname jid =
     \<lparr>filename = fname, status = ''processing'', jobId = Some jid, error = None\<rparr>"

text \<open>Inputs of the examples.\<close>

definition reply_with :: "string \<Rightarrow> response" where
  "reply_with st = Body (Obj (Some st) None)"

definition always_queued :: server where
  "always_queued = (\<lambda>jid. reply_with ''queued'')"

definition always_finished :: server where
  "always_finished = (\<lambda>jid. reply_with ''finished'')"

definition always_failed :: server where
  "always_failed = (\<lambda>jid. reply_with ''failed'')"

definition first_finished :: server where
  "first_finished = (\<lambda>jid. if jid = ''job-1'' then reply_with ''finished'' else reply_with ''queued'')"

definition first_rejected :: server where
  "first_rejected = (\<lambda>jid. if jid = ''job-1'' then Rejected else reply_with ''queued'')"

definition queued_detail :: "string \<Rightarrow> string \<Rightarrow> file_detail" where
  "queued_detail fname jid =
     \<lparr>fd_filename = fname, fd_status = Some ''queued'', job_id = Some jid, fd_error = None\<rparr>"

definition two_jobs :: "string list" where
  "two_jobs = [''job-1'', ''job-2'']"

definition two_details :: "file_detail list" where
  "two_details = [queued_detail ''a.pdf'' ''job-1'', queued_detail ''b.pdf'' ''job-2'']"

definition empty_view :: view where
  "empty_view =
     \<lparr>files = [], uploading = False, uploadStatus = Empty, progress = None,
      processingDetails = []\<rparr>"

definition many_files :: "string list" where
  "many_files = replicate 21 ''plan.pdf''"

definition error_body :: answer where
  "error_body =
     \<lparr>answer_text = None, query_type = None, execution_time_ms = None, sources = None,
      answer_detail = Some ''Database unavailable''\<rparr>"

text \<open>
  The display after the upload of \<open>a.pdf\<close> and \<open>b.pdf\<close>, and the display after the
  selection and the upload of \<open>c.pdf\<close> and \<open>d.pdf\<close> that follow it.
\<close>

definition upload_body_of :: "file_detail list \<Rightarrow> string list \<Rightarrow> upload_body" where
  "upload_body_of ds js =
     \<lparr>body_job_id = None, total_files = Some (int (length ds)),
      body_successful = Some (int (length js)), body_failed = Some 0,
      details = Some ds, job_ids = Some js\<rparr>"

definition other_details :: "file_detail list" where
  "other_details = [queued_detail ''c.pdf'' ''job-3'', queued_detail ''d.pdf'' ''job-4'']"

definition view_a :: view where
  "view_a = fst (handleUpload (empty_view\<lparr>files := [''a.pdf'', ''b.pdf'']\<rparr>)
                  (Ok (upload_body_of two_details two_jobs)))"

definition view_b :: view where
  "view_b = fst (handleUpload (handleFileChange [''c.pdf'', ''d.pdf''] view_a)
                  (Ok (upload_body_of other_details [''job-3'', ''job-4''])))"

text \<open>The display after the upload of the single file \<open>a.pdf\<close>.\<close>

definition single_body :: upload_body where
  "single_body =
     \<lparr>body_job_id = Some ''job-1'', total_files = None, body_successful = None,
      body_failed = None, details = None, job_ids = None\<rparr>"

definition single_view :: view where
  "single_view = fst (handleUpload (empty_view\<lparr>files := [''a.pdf'']\<rparr>) (Ok single_body))"

text \<open>
  A batch of three jobs, of which the server reports one as finished, one as failed and
  one as queued, and later one as finished and two as failed; a server whose bodies are
  \<^verbatim>\<open>null\<close>.
\<close>

definition three_jobs :: "string list" where
  "three_jobs = [''job-1'', ''job-2'', ''job-3'']"

definition three_details :: "file_detail list" where
  "three_details =
     [queued_detail ''a.pdf'' ''job-1'', queued_detail ''b.pdf'' ''job-2'',
      queued_detail ''c.pdf'' ''job-3'']"

definition mixed_server :: server where
  "mixed_server =
     (\<lambda>jid. if jid = ''job-1'' then reply_with ''finished''
            else if jid = ''job-2'' then Body (Obj (Some ''failed'') (Some ''no text''))
            else reply_with ''queued'')"

definition settled_server :: server where
  "settled_server =
     (\<lambda>jid. if jid = ''job-1'' then reply_with ''finished''
            else Body (Obj (Some ''failed'') (Some ''no text'')))"

definition view_three :: view where
  "view_three = fst (handleUpload (empty_view\<lparr>files := [''a.pdf'', ''b.pdf'', ''c.pdf'']\<rparr>)
                      (Ok (upload_body_of three_details three_jobs)))"


text \<open>An answer with seven sources.\<close>

definition plain_source :: "string \<Rightarrow> int \<Rightarrow> source" where
  "plain_source fname pg =
     \<lparr>is_diagram = False, src_filename = Some fname, page = Some pg, score = None\<rparr>"

definition seven_sources :: "source list" where
  "seven_sources =
     [plain_source ''s1.pdf'' 1, plain_source ''s2.pdf'' 2, plain_source ''s3.pdf'' 3,
      plain_source ''s4.pdf'' 4, plain_source ''s5.pdf'' 5, plain_source ''s6.pdf'' 6,
      plain_source ''s7.pdf'' 7]"

definition seven_answer :: answer where
  "seven_answer =
     \<lparr>answer_text = Some ''See the sheets.'', query_type = Some ''reference'',
      execution_time_ms = Some 12, sources = Some seven_sources, answer_detail = None\<rparr>"

section \<open>Facts about one round of the multi-job loop\<close>

lemma round_statuses_no_Null:
  "Body Null \<notin> srv ` set js \<Longrightarrow> Null \<notin> set (round_statuses srv js)"
  by (force simp: round_statuses_def fetch_status_def split: response.splits)

lemma count_status_eq:
  "Null \<notin> set ss \<Longrightarrow> count_status v ss = Inr (length (filter (has_status v) ss))"
  by (induction v ss rule: count_status.induct) (auto simp: has_status_def status_field_def)

lemma updatedDetails_eq:
  "Null \<notin> set ss \<Longrightarrow> length ds \<le> length ss \<Longrightarrow>
   updatedDetails ds ss = Inr (map2 (\<lambda>d s. shown_detail d (status_field s) (error_field s)) ds ss)"
  by (induction ds ss rule: updatedDetails.induct) (auto simp: status_field_def error_field_def)

lemma count_partition:
  "length (filter (has_status ''finished'') ss) + length (filter (has_status ''failed'') ss)
     + length (filter (\<lambda>s. \<not> terminal s) ss) = length ss"
  by (induction ss) (auto simp: terminal_def has_status_def)

lemma still_processing_eq:
  "still_processing (length ss) (length (filter (has_status ''finished'') ss))
      (length (filter (has_status ''failed'') ss)) = int (length (filter (\<lambda>s. \<not> terminal s) ss))"
  using count_partition [of ss] by (simp add: still_processing_def)

text \<open>
  A round in which no body is \<^verbatim>\<open>null\<close> and no file is without a job throws nothing: it
  is the report on the counts of its statuses.
\<close>

lemma checkJobs_eq:
  assumes "Body Null \<notin> srv ` set js" "length ds \<le> length js"
  shows "checkJobs cb js ds srv (l, v) =
     report cb (length js)
       (length (filter (has_status ''finished'') (round_statuses srv js)))
       (length (filter (has_status ''failed'') (round_statuses srv js)))
       (l\<lparr>timer := None, requests := requests l @ js\<rparr>,
        v\<lparr>processingDetails :=
            map2 (\<lambda>d s. shown_detail d (status_field s) (error_field s)) ds (round_statuses srv js)\<rparr>)"
proof -
  have n: "Null \<notin> set (round_statuses srv js)"
    using assms(1) by (rule round_statuses_no_Null)
  have len: "length ds \<le> length (round_statuses srv js)"
    using assms(2) by (simp add: round_statuses_def)
  show ?thesis
    using updatedDetails_eq [OF n len] count_status_eq [OF n]
    by (simp add: checkJobs_def Let_def round_statuses_def)
qed

lemma report_timer:
  "timer (fst (report cb n c f (l, v))) =
     (if still_processing n c f > 0 then Some 3000 else timer l)"
  by (simp add: report_def Let_def)

lemma report_requests: "requests (fst (report cb n c f (l, v))) = requests l"
  by (simp add: report_def Let_def)

lemma report_details: "processingDetails (snd (report cb n c f (l, v))) = processingDetails v"
  by (simp add: report_def Let_def)

lemma report_progress: "progress (snd (report cb n c f (l, v))) = merge_progress (progress v) c f"
  by (simp add: report_def Let_def)

lemma checkJobs_requests: "requests (fst (checkJobs cb js ds srv s)) = requests (fst s) @ js"
  by (cases s) (simp add: checkJobs_def Let_def report_requests split: sum.splits)

lemma run_checkJobs_stopped: "timer (fst s) = None \<Longrightarrow> run_checkJobs cb js ds rest s = s"
  by (cases rest) simp_all

lemma run_checkStatus_stopped: "timer (fst s) = None \<Longrightarrow> run_checkStatus cb j f rest s = s"
  by (cases rest) simp_all

section \<open>The percentage in double arithmetic\<close>

lemma round_even_error: "\<bar>of_int (round_even m) - m\<bar> \<le> 1 / 2"
proof -
  have "of_int \<lfloor>m\<rfloor> \<le> m" "m < of_int \<lfloor>m\<rfloor> + 1"
    by linarith+
  then show ?thesis
    by (auto simp: round_even_def Let_def)
qed

lemma exponent_le:
  assumes "0 < x"
  shows "2 powi (exponent x) \<le> x"
proof -
  obtain a b where q: "quotient_of x = (a, b)"
    by (cases "quotient_of x")
  then have b: "0 < b" and x: "x = of_int a / of_int b"
    using quotient_of_denom_pos [OF q] quotient_of_div [OF q] by simp_all
  have a: "0 < a"
    using assms b x by (simp add: zero_less_divide_iff)
  let ?e0 = "bitlen a - bitlen b"
  have la: "2 ^ nat (bitlen a - 1) \<le> a" and lb: "b < 2 ^ nat (bitlen b)"
    using bitlen_bounds [OF a] bitlen_bounds [OF b] by simp_all
  have ba: "1 \<le> bitlen a" and bb: "0 \<le> bitlen b"
    using a by (simp_all add: bitlen_alt_def)
  have "(2::rat) powi (?e0 - 1) = 2 powi ((bitlen a - 1) - bitlen b)"
    by (simp add: algebra_simps)
  also have "\<dots> = 2 powi (bitlen a - 1) / 2 powi (bitlen b)"
    by (rule power_int_diff) simp
  also have "\<dots> = 2 ^ nat (bitlen a - 1) / 2 ^ nat (bitlen b)"
    using ba bb by (simp add: power_int_def)
  also have "\<dots> \<le> of_int a / 2 ^ nat (bitlen b)"
  proof -
    have "(2::rat) ^ nat (bitlen a - 1) \<le> of_int a"
      using la by (metis of_int_le_iff of_int_numeral of_int_power)
    then show ?thesis
      by (simp add: divide_right_mono)
  qed
  also have "\<dots> \<le> of_int a / of_int b"
  proof -
    have "(of_int b :: rat) \<le> 2 ^ nat (bitlen b)"
      using lb by (metis less_imp_le of_int_le_iff of_int_numeral of_int_power)
    moreover have "(0::rat) < of_int b" "(0::rat) \<le> of_int a"
      using a b by simp_all
    ultimately show ?thesis
      by (simp add: frac_le)
  qed
  finally have low: "2 powi (?e0 - 1) \<le> x"
    using x by simp
  show ?thesis
    using low q by (simp add: exponent_def Let_def)
qed

lemma to_double_error:
  assumes "0 < x"
  shows "\<bar>to_double x - x\<bar> \<le> x / 2 ^ 53"
proof -
  let ?u = "(2::rat) powi (exponent x - 52)"
  have u: "0 < ?u"
    by simp
  have ue: "?u = 2 powi (exponent x) / 2 ^ 52"
    by (simp add: power_int_diff)
  have "to_double x - x = (of_int (round_even (x / ?u)) - x / ?u) * ?u"
    using assms u by (simp add: to_double_def Let_def algebra_simps)
  then have "\<bar>to_double x - x\<bar> = \<bar>of_int (round_even (x / ?u)) - x / ?u\<bar> * ?u"
    using u by (simp add: abs_mult)
  also have "\<dots> \<le> (1 / 2) * ?u"
    using round_even_error [of "x / ?u"] u by (intro mult_right_mono) simp_all
  also have "\<dots> = 2 powi (exponent x) / 2 ^ 53"
    unfolding ue by simp
  also have "\<dots> \<le> x / 2 ^ 53"
    using exponent_le [OF assms] by (simp add: divide_right_mono)
  finally show ?thesis .
qed

text \<open>
  The percentage shown is within a half of the exact percentage: the two roundings to a
  double move the product by less than \<open>1 / 2 ^ 45\<close>, which cannot carry it across a
  half-integer that the exact percentage, a multiple of \<open>1 / n\<close>, does not reach. At an
  exact half the rounded product may fall on either side: 23 of 40 is shown as 57.
\<close>

lemma percent_bound:
  assumes n: "0 < n" and cn: "c \<le> n" and small: "n < 2 ^ 32"
  shows "\<bar>of_int (percent c n) - 100 * of_nat c / of_nat n\<bar> \<le> (1 / 2 :: rat)"
proof (cases "c = 0")
  case True
  have "\<lfloor>(1::rat) / 2\<rfloor> = 0"
    by (simp add: floor_eq_iff)
  with True show ?thesis
    by (simp add: percent_def to_double_def math_round_def)
next
  case False
  define N :: rat where "N = of_nat n"
  define x :: rat where "x = of_nat c / N"
  define q where "q = to_double x"
  define p where "p = to_double (q * 100)"
  define r where "r = math_round p"
  define d :: rat where "d = 1 / 2 ^ 45"
  have N: "0 < N" "N < 2 ^ 32"
    using n small unfolding N_def
    by (simp, metis of_nat_less_iff of_nat_numeral of_nat_power)
  have x: "0 < x" "x \<le> 1"
    using False cn N unfolding x_def N_def by simp_all
  have xN: "x * N = of_nat c"
    using N unfolding x_def by simp
  have eq: "\<bar>q - x\<bar> \<le> x / 2 ^ 53"
    unfolding q_def using x(1) by (rule to_double_error)
  have "x / 2 ^ 53 \<le> 1 / 2 ^ 53"
    using x(2) by (simp add: divide_right_mono)
  with eq have eq': "\<bar>q - x\<bar> \<le> 1 / 2 ^ 53"
    by linarith
  have "x / 2 ^ 53 < x"
    using x(1) by (simp add: field_simps)
  with eq have q0: "0 < q"
    by linarith
  have "(1::rat) / 2 ^ 53 \<le> 1 / 100"
    by simp
  with eq' x(2) have q1: "q \<le> 101 / 100"
    by linarith
  note q = q0 q1
  have ep: "\<bar>p - q * 100\<bar> \<le> q * 100 / 2 ^ 53"
    unfolding p_def using q(1) by (intro to_double_error) simp
  have "q * 100 / 2 ^ 53 \<le> 101 / 2 ^ 53"
    using q(2) by (simp add: divide_right_mono)
  with ep have ep': "\<bar>p - q * 100\<bar> \<le> 101 / 2 ^ 53"
    by linarith
  have ep2: "p - q * 100 \<le> 101 / 2 ^ 53" "q * 100 - p \<le> 101 / 2 ^ 53"
    using ep' by linarith+
  have eq2: "q - x \<le> 1 / 2 ^ 53" "x - q \<le> 1 / 2 ^ 53"
    using eq' by linarith+
  have dd: "(201::rat) / 2 ^ 53 \<le> d"
    unfolding d_def by simp
  have "p - 100 * x \<le> 201 / 2 ^ 53" "100 * x - p \<le> 201 / 2 ^ 53"
    using ep2 eq2 by linarith+
  with dd have tot: "\<bar>p - 100 * x\<bar> \<le> d"
    by linarith
  have r: "of_int r \<le> p + 1 / 2" "p + 1 / 2 < of_int r + 1"
    unfolding r_def math_round_def by linarith+
  have dN: "2 * N * d < 1"
    using N unfolding d_def by simp
  have c200: "2 * N * (100 * x) = of_int (200 * int c)"
    using xN by (simp add: algebra_simps)
  have lo: "of_int r - 1 / 2 - d \<le> 100 * x" and hi: "100 * x < of_int r + 1 / 2 + d"
    using tot r by linarith+
  have "2 * N * (of_int r - 1 / 2 - d) \<le> 2 * N * (100 * x)"
    using lo N(1) by (intro mult_left_mono) simp_all
  then have "of_int ((2 * r - 1) * int n) - 2 * N * d \<le> (of_int (200 * int c) :: rat)"
    unfolding c200 by (simp add: algebra_simps N_def)
  then have "(of_int ((2 * r - 1) * int n - 1) :: rat) < of_int (200 * int c)"
    using dN by simp
  then have l1: "(2 * r - 1) * int n \<le> 200 * int c"
    unfolding of_int_less_iff by linarith
  have "2 * N * (100 * x) < 2 * N * (of_int r + 1 / 2 + d)"
    using hi N(1) by (intro mult_strict_left_mono) simp_all
  then have "(of_int (200 * int c) :: rat) < of_int ((2 * r + 1) * int n) + 2 * N * d"
    unfolding c200 by (simp add: algebra_simps N_def)
  then have "(of_int (200 * int c) :: rat) < of_int ((2 * r + 1) * int n + 1)"
    using dN by simp
  then have l2: "200 * int c \<le> (2 * r + 1) * int n"
    unfolding of_int_less_iff by linarith
  have "(of_int ((2 * r - 1) * int n) :: rat) \<le> of_int (200 * int c)"
    "(of_int (200 * int c) :: rat) \<le> of_int ((2 * r + 1) * int n)"
    using l1 l2 unfolding of_int_le_iff by simp_all
  then have "2 * N * (of_int r - 1 / 2) \<le> 2 * N * (100 * x)"
    "2 * N * (100 * x) \<le> 2 * N * (of_int r + 1 / 2)"
    unfolding c200 by (simp_all add: algebra_simps N_def)
  then have "of_int r - 1 / 2 \<le> 100 * x" "100 * x \<le> of_int r + 1 / 2"
    using N(1) by simp_all
  then have "\<bar>of_int r - 100 * x\<bar> \<le> 1 / 2"
    by linarith
  then show ?thesis
    unfolding r_def p_def q_def x_def N_def percent_def by (simp add: algebra_simps)
qed

lemma percent_23_40: "percent 23 40 = 57"
  by code_simp

lemma percent_1_3: "percent 1 3 = 33"
  by code_simp

section \<open>The round bound (C1)\<close>

lemma always_queued_statuses:
  "round_statuses always_queued js = replicate (length js) (Obj (Some ''queued'') None)"
  by (induction js)
    (simp_all add: round_statuses_def always_queued_def reply_with_def fetch_status_def)

lemma checkJobs_always_queued:
  assumes "js \<noteq> []" "length ds \<le> length js"
  shows "fst (checkJobs cb js ds always_queued (l, v)) =
           l\<lparr>attempts := Suc (attempts l), timer := Some 3000, requests := requests l @ js\<rparr>"
proof -
  have "Body Null \<notin> always_queued ` set js"
    by (auto simp: always_queued_def reply_with_def)
  from checkJobs_eq [OF this assms(2)] assms(1) show ?thesis
    by (simp add: always_queued_statuses report_def Let_def still_processing_def has_status_def
        status_field_def)
qed

lemma checkJobs_not_TakingLonger:
  "uploadStatus (snd s) \<noteq> TakingLonger \<Longrightarrow>
   uploadStatus (snd (checkJobs cb js ds srv s)) \<noteq> TakingLonger"
  by (cases s) (simp add: checkJobs_def report_def Let_def split: sum.splits)

text \<open>No round of the multi-job loop ever sets the "taking longer" status.\<close>

lemma run_checkJobs_not_TakingLonger:
  "uploadStatus (snd s) \<noteq> TakingLonger \<Longrightarrow>
   uploadStatus (snd (run_checkJobs cb js ds rounds s)) \<noteq> TakingLonger"
proof (induction rounds arbitrary: s)
  case Nil
  then show ?case by simp
next
  case (Cons srv rest)
  then show ?case
    by (auto simp: checkJobs_not_TakingLonger split: option.splits)
qed

text \<open>
  While the server answers "queued", the multi-job loop runs as many rounds as there are
  timer events: after \<open>n\<close> of them the counter is \<open>n\<close> higher and the next timer is set.
\<close>

lemma run_checkJobs_always_queued:
  assumes "js \<noteq> []" "length ds \<le> length js"
  shows "timer l \<noteq> None \<Longrightarrow>
         fst (run_checkJobs cb js ds (replicate n always_queued) (l, v)) =
           l\<lparr>attempts := attempts l + n,
              timer := (if n = 0 then timer l else Some 3000),
              requests := requests l @ concat (replicate n js)\<rparr>"
proof (induction n arbitrary: l v)
  case 0
  then show ?case by simp
next
  case (Suc n)
  obtain l' v' where step: "checkJobs cb js ds always_queued (l, v) = (l', v')"
    by (cases "checkJobs cb js ds always_queued (l, v)")
  have l': "l' = l\<lparr>attempts := Suc (attempts l), timer := Some 3000, requests := requests l @ js\<rparr>"
    using checkJobs_always_queued [OF assms, of cb l v] step by simp
  then have "timer l' \<noteq> None" by simp
  from Suc.IH [OF this, of v'] Suc.prems step l' show ?case
    by (auto split: option.splits)
qed

text \<open>
  Claim C1: every batch poll loop performs at most \<open>maxAttempts\<close> rounds; after
  \<open>maxAttempts\<close> rounds with a job still not terminal no further status request is issued
  and the "taking longer than expected" status is emitted exactly once.

  The multi-job loop declares \<open>maxAttempts\<close> and never reads it. On a batch of two jobs
  that the server keeps reporting as queued, round \<open>maxAttempts + 1\<close> runs as every round
  before it: the counter is 61, both jobs have been requested 61 times, the next timer is
  set three seconds ahead, and the status is not the "taking longer" one.
\<close>

theorem pollJobsCompletion_exceeds_maxAttempts:
  "attempts (fst (run_checkJobs True two_jobs two_details
       (replicate (Suc maxAttempts) always_queued) (start_loop, empty_view))) = Suc maxAttempts
   \<and> timer (fst (run_checkJobs True two_jobs two_details
       (replicate (Suc maxAttempts) always_queued) (start_loop, empty_view))) = Some 3000
   \<and> length (requests (fst (run_checkJobs True two_jobs two_details
       (replicate (Suc maxAttempts) always_queued) (start_loop, empty_view)))) = 2 * Suc maxAttempts
   \<and> uploadStatus (snd (run_checkJobs True two_jobs two_details
       (replicate (Suc maxAttempts) always_queued) (start_loop, empty_view))) \<noteq> TakingLonger"
proof -
  let ?r = "run_checkJobs True two_jobs two_details
       (replicate (Suc maxAttempts) always_queued) (start_loop, empty_view)"
  have a: "two_jobs \<noteq> []" "length two_details \<le> length two_jobs"
    by (simp_all add: two_jobs_def two_details_def)
  have t: "timer start_loop \<noteq> None"
    by (simp add: start_loop_def)
  have u: "uploadStatus (snd (start_loop, empty_view)) \<noteq> TakingLonger"
    by (simp add: empty_view_def)
  have f: "fst ?r = start_loop\<lparr>attempts := attempts start_loop + Suc maxAttempts,
              timer := (if Suc maxAttempts = 0 then timer start_loop else Some 3000),
              requests := requests start_loop @ concat (replicate (Suc maxAttempts) two_jobs)\<rparr>"
    by (rule run_checkJobs_always_queued [OF a t])
  have len: "length (concat (replicate (Suc maxAttempts) two_jobs)) = 2 * Suc maxAttempts"
    by (simp add: two_jobs_def length_concat sum_list_replicate)
  have "attempts (fst ?r) = Suc maxAttempts"
    unfolding f by (simp add: start_loop_def)
  moreover have "timer (fst ?r) = Some 3000"
    unfolding f by simp
  moreover have "length (requests (fst ?r)) = 2 * Suc maxAttempts"
    unfolding f using len by (simp add: start_loop_def)
  moreover have "uploadStatus (snd ?r) \<noteq> TakingLonger"
    by (rule run_checkJobs_not_TakingLonger [OF u])
  ultimately show ?thesis
    by blast
qed

section \<open>The file limit (C9)\<close>

text \<open>
  Claim C9: with more than 20 files selected, \<^verbatim>\<open>handleUpload\<close> sets the rejection status
  and sends no request; with between 1 and 20 files it sends a request: the single upload
  for one file, the multiple upload otherwise.
\<close>

theorem handleUpload_file_limit:
  "(length (files v) > 20 \<longrightarrow> handleUpload v reply = (v\<lparr>uploadStatus := MaxFiles\<rparr>, [], None)) \<and>
   (1 \<le> length (files v) \<and> length (files v) \<le> 20 \<longrightarrow>
      fst (snd (handleUpload v reply)) =
        (case files v of [f] \<Rightarrow> [PostUpload f] | fs \<Rightarrow> [PostUploadMultiple fs]))"
  by (auto simp: handleUpload_def upload_single_def upload_multiple_def Let_def
      split: list.splits upload_reply.splits option.splits)

theorem handleUpload_file_limit_witness:
  "length (files (empty_view\<lparr>files := many_files\<rparr>)) > 20
   \<and> handleUpload (empty_view\<lparr>files := many_files\<rparr>) (NetworkError ''offline'') =
       (empty_view\<lparr>files := many_files, uploadStatus := MaxFiles\<rparr>, [], None)
   \<and> 1 \<le> length (files (empty_view\<lparr>files := [''a.pdf'', ''b.pdf'']\<rparr>))
   \<and> length (files (empty_view\<lparr>files := [''a.pdf'', ''b.pdf'']\<rparr>)) \<le> 20
   \<and> fst (snd (handleUpload (empty_view\<lparr>files := [''a.pdf'', ''b.pdf'']\<rparr>)
         (NetworkError ''offline''))) = [PostUploadMultiple [''a.pdf'', ''b.pdf'']]"
  using handleUpload_file_limit [of "empty_view\<lparr>files := many_files\<rparr>" "NetworkError ''offline''"]
    handleUpload_file_limit [of "empty_view\<lparr>files := [''a.pdf'', ''b.pdf'']\<rparr>"
      "NetworkError ''offline''"]
  by (simp add: many_files_def empty_view_def)

section \<open>The source list of an answer (C10)\<close>

text \<open>
  Claim C10: for an answer with \<open>m\<close> sources the renderer shows exactly \<open>min m 5\<close> source
  entries, the first five in the order of the list: each with its icon, its file name
  (or "Unknown"), its page (or 0) and its score, if any. It shows none when the answer
  has no list of sources.
\<close>

theorem AnswerDisplay_first_five_sources:
  "(sources a = Some ss \<longrightarrow>
      map_option displayed_sources (AnswerDisplay (Some a)) =
        Some (map (\<lambda>s. \<lparr>entry_icon = (if is_diagram s then Wrench else Sheet),
                         entry_filename =
                           (case src_filename s of None \<Rightarrow> ''Unknown''
                            | Some f \<Rightarrow> if f = [] then ''Unknown'' else f),
                         entry_page = (case page s of None \<Rightarrow> 0 | Some p \<Rightarrow> p),
                         entry_score =
                           (case score s of None \<Rightarrow> NoScore
                            | Some x \<Rightarrow> if x = 0 then LiteralZero else Score x)\<rparr>)
                (take 5 ss))
      \<and> map_option (length \<circ> displayed_sources) (AnswerDisplay (Some a)) =
          Some (min (length ss) 5))
   \<and> (sources a = None \<longrightarrow>
        map_option displayed_sources (AnswerDisplay (Some a)) = Some [])"
proof -
  have "render_source = (\<lambda>s. \<lparr>entry_icon = (if is_diagram s then Wrench else Sheet),
                         entry_filename =
                           (case src_filename s of None \<Rightarrow> ''Unknown''
                            | Some f \<Rightarrow> if f = [] then ''Unknown'' else f),
                         entry_page = (case page s of None \<Rightarrow> 0 | Some p \<Rightarrow> p),
                         entry_score =
                           (case score s of None \<Rightarrow> NoScore
                            | Some x \<Rightarrow> if x = 0 then LiteralZero else Score x)\<rparr>)"
    by (rule ext) (simp add: render_source_def)
  then show ?thesis
    by (auto simp: AnswerDisplay_def displayed_sources_def sources_of_def)
qed

theorem AnswerDisplay_first_five_sources_witness:
  "sources seven_answer = Some seven_sources
   \<and> length seven_sources = 7
   \<and> map_option (map entry_filename \<circ> displayed_sources) (AnswerDisplay (Some seven_answer)) =
       Some [''s1.pdf'', ''s2.pdf'', ''s3.pdf'', ''s4.pdf'', ''s5.pdf'']
   \<and> map_option (length \<circ> displayed_sources) (AnswerDisplay (Some seven_answer)) = Some 5
   \<and> sources error_body = None
   \<and> map_option displayed_sources (AnswerDisplay (Some error_body)) = Some []"
proof -
  have a: "sources seven_answer = Some seven_sources"
    by (simp add: seven_answer_def)
  have b: "sources error_body = None"
    by (simp add: error_body_def)
  have n: "length seven_sources = 7"
    by (simp add: seven_sources_def)
  note t1 = AnswerDisplay_first_five_sources [of seven_answer seven_sources]
  note t2 = AnswerDisplay_first_five_sources [of error_body "[]"]
  have r1: "map_option displayed_sources (AnswerDisplay (Some seven_answer)) =
        Some (map (\<lambda>s. \<lparr>entry_icon = (if is_diagram s then Wrench else Sheet),
                         entry_filename =
                           (case src_filename s of None \<Rightarrow> ''Unknown''
                            | Some f \<Rightarrow> if f = [] then ''Unknown'' else f),
                         entry_page = (case page s of None \<Rightarrow> 0 | Some p \<Rightarrow> p),
                         entry_score =
                           (case score s of None \<Rightarrow> NoScore
                            | Some x \<Rightarrow> if x = 0 then LiteralZero else Score x)\<rparr>)
                (take 5 seven_sources))"
    using t1 a by blast
  have r2: "map_option (length \<circ> displayed_sources) (AnswerDisplay (Some seven_answer)) = Some 5"
    using t1 a n by simp
  have r3: "map_option displayed_sources (AnswerDisplay (Some error_body)) = Some []"
    using t2 b by blast
  have r4: "map_option (map entry_filename \<circ> displayed_sources) (AnswerDisplay (Some seven_answer)) =
       Some [''s1.pdf'', ''s2.pdf'', ''s3.pdf'', ''s4.pdf'', ''s5.pdf'']"
    using r1 by (auto simp: seven_sources_def plain_source_def)
  from a b n r2 r3 r4 show ?thesis
    by blast
qed

section \<open>Error replies (C7)\<close>

text \<open>
  Claim C7: an upload or query request answered with a non-2xx status surfaces the
  server's detail message when the body has one, and a message naming the status code
  otherwise.

  The upload does so. The query panel never looks at the status code: a reply with status
  500 and the detail "Database unavailable" is handed on as if it were an answer, and the
  renderer shows "No answer available", with neither the detail nor the status code.
\<close>

theorem handleQuery_ignores_error_reply:
  "handleQuery ''Where is AHU-3 located?'' True (QueryBody 500 error_body) =
     ([PostQuery ''Where is AHU-3 located?''], Some error_body)
   \<and> map_option answerText (AnswerDisplay (snd (handleQuery ''Where is AHU-3 located?'' True
        (QueryBody 500 error_body)))) = Some ''No answer available''"
proof -
  have "trim ''Where is AHU-3 located?'' \<noteq> []"
    by code_simp
  then show ?thesis
    by (simp add: handleQuery_def AnswerDisplay_def error_body_def)
qed

section \<open>Facts about the examples\<close>

lemma first_finished_no_Null: "Body Null \<notin> first_finished ` set two_jobs"
  by (simp add: first_finished_def two_jobs_def reply_with_def)

lemma first_finished_statuses:
  "round_statuses first_finished two_jobs = [Obj (Some ''finished'') None, Obj (Some ''queued'') None]"
  by (simp add: round_statuses_def first_finished_def two_jobs_def reply_with_def fetch_status_def)

lemmas ex_defs = two_jobs_def two_details_def queued_detail_def first_finished_def first_rejected_def
  always_finished_def always_queued_def reply_with_def empty_view_def start_loop_def
lemmas multi_defs = checkJobs_def fetch_status_def shown_detail_def display_status_def report_def
  still_processing_def merge_progress_def Let_def

lemma checkJobs_details:
  assumes "Body Null \<notin> srv ` set js" "length ds \<le> length js"
  shows "processingDetails (snd (checkJobs cb js ds srv (l, v))) =
     map2 (\<lambda>d s. shown_detail d (status_field s) (error_field s)) ds (round_statuses srv js)"
  by (simp add: checkJobs_eq [OF assms] report_details)

lemma checkJobs_timer:
  assumes "Body Null \<notin> srv ` set js" "length ds \<le> length js"
  shows "timer (fst (checkJobs cb js ds srv (l, v))) =
     (if filter (\<lambda>s. \<not> terminal s) (round_statuses srv js) = [] then None else Some 3000)"
proof -
  have "length (round_statuses srv js) = length js"
    by (simp add: round_statuses_def)
  then show ?thesis
    using still_processing_eq [of "round_statuses srv js"]
    by (simp add: checkJobs_eq [OF assms] report_timer)
qed

lemma first_rejected_no_Null: "Body Null \<notin> first_rejected ` set two_jobs"
  by (simp add: first_rejected_def two_jobs_def reply_with_def)

lemma always_finished_statuses:
  "round_statuses always_finished two_jobs = [Obj (Some ''finished'') None, Obj (Some ''finished'') None]"
  by (simp add: round_statuses_def always_finished_def two_jobs_def reply_with_def fetch_status_def)

lemma always_finished_no_Null: "Body Null \<notin> always_finished ` set two_jobs"
  by (simp add: always_finished_def two_jobs_def reply_with_def)

section \<open>The counts of a round (C8)\<close>

lemma count_reports:
  "v \<noteq> ''unknown'' \<Longrightarrow>
   length (filter (has_status v) (round_statuses srv js)) =
     length (filter (\<lambda>j. reports v (srv j)) js)"
  by (induction js)
    (auto simp: round_statuses_def fetch_status_def has_status_def status_field_def reports_def
      split: response.splits json.splits)

lemma count_not_terminal:
  "length (filter (\<lambda>s. \<not> terminal s) (round_statuses srv js)) =
     length (filter (\<lambda>j. \<not> reports ''finished'' (srv j) \<and> \<not> reports ''failed'' (srv j)) js)"
  by (induction js)
    (auto simp: round_statuses_def fetch_status_def terminal_def has_status_def status_field_def
      reports_def split: response.splits json.splits)

text \<open>
  Claim C8: in every polling round of a batch of \<open>n\<close> jobs the counts reported after the round
  satisfy completed + failed + still processing = \<open>n\<close>, and the percentage is completed
  over \<open>n\<close>.

  For a round that throws nothing, with \<open>c\<close> the number of jobs reported finished, \<open>f\<close> the
  number reported failed and \<open>p\<close> the number of the others: \<open>c + f + p = n\<close>, the count
  \<^verbatim>\<open>processing\<close> of the code is \<open>p\<close>, and the progress state shows \<open>c\<close> as completed and
  \<open>f\<close> as failed. While a job is still processing the status text shows \<open>c\<close>, \<open>n\<close>, the
  failed count and the percentage, an integer that is within a half of \<open>100 * c / n\<close>
  for a batch of fewer than \<open>2 ^ 32\<close> jobs (the limit of an array); when none is, the
  final text shows \<open>n\<close>, or \<open>c\<close> and \<open>f\<close>.
\<close>

theorem checkJobs_counts:
  assumes "Body Null \<notin> srv ` set jobIds" "length fileDetails \<le> length jobIds"
  shows
    "(let n = length jobIds;
          c = length (filter (\<lambda>j. reports ''finished'' (srv j)) jobIds);
          f = length (filter (\<lambda>j. reports ''failed'' (srv j)) jobIds);
          p = length (filter (\<lambda>j. \<not> reports ''finished'' (srv j) \<and> \<not> reports ''failed'' (srv j))
                jobIds);
          s' = checkJobs cb jobIds fileDetails srv (l, v)
      in c + f + p = n
         \<and> still_processing n c f = int p
         \<and> map_option completed (progress (snd s')) = Some (Some (int c))
         \<and> map_option failed (progress (snd s')) = Some (Some (int f))
         \<and> (0 < p \<longrightarrow>
              uploadStatus (snd s') =
                Processing c n (percent c n) (Suc (attempts l) * 3 div 60)
                  (if 0 < f then Some f else None)
              \<and> (n < 2 ^ 32 \<longrightarrow>
                   \<bar>of_int (percent c n) - 100 * of_nat c / of_nat n\<bar> \<le> (1 / 2 :: rat)))
         \<and> (p = 0 \<longrightarrow>
              uploadStatus (snd s') =
                (if f = 0 then AllProcessed n else ProcessingComplete c f)))"
proof -
  let ?ss = "round_statuses srv jobIds"
  let ?c = "length (filter (\<lambda>j. reports ''finished'' (srv j)) jobIds)"
  let ?f = "length (filter (\<lambda>j. reports ''failed'' (srv j)) jobIds)"
  let ?p = "length (filter (\<lambda>j. \<not> reports ''finished'' (srv j) \<and> \<not> reports ''failed'' (srv j))
                jobIds)"
  let ?n = "length jobIds"
  let ?s = "checkJobs cb jobIds fileDetails srv (l, v)"
  have c: "length (filter (has_status ''finished'') ?ss) = ?c"
    and f: "length (filter (has_status ''failed'') ?ss) = ?f"
    by (simp_all add: count_reports)
  have n: "length ?ss = ?n"
    by (simp add: round_statuses_def)
  have sum: "?c + ?f + ?p = ?n"
    using count_partition [of ?ss] by (simp only: c f n count_not_terminal)
  have p: "still_processing ?n ?c ?f = int ?p"
    using sum by (simp add: still_processing_def)
  have s: "?s = report cb ?n ?c ?f
       (l\<lparr>timer := None, requests := requests l @ jobIds\<rparr>,
        v\<lparr>processingDetails :=
            map2 (\<lambda>d s. shown_detail d (status_field s) (error_field s)) fileDetails ?ss\<rparr>)"
    by (simp only: checkJobs_eq [OF assms] c f)
  have pc: "map_option completed (progress (snd ?s)) = Some (Some (int ?c))"
    and pf: "map_option failed (progress (snd ?s)) = Some (Some (int ?f))"
    by (simp_all add: s report_progress merge_progress_def)
  have msg: "uploadStatus (snd ?s) =
      Processing ?c ?n (percent ?c ?n) (Suc (attempts l) * 3 div 60)
        (if 0 < ?f then Some ?f else None)" if "0 < ?p"
    using that p by (simp add: s report_def Let_def)
  have fin: "uploadStatus (snd ?s) = (if ?f = 0 then AllProcessed ?n else ProcessingComplete ?c ?f)"
    if "?p = 0"
    using that p by (simp add: s report_def Let_def)
  have bound: "\<bar>of_int (percent ?c ?n) - 100 * of_nat ?c / of_nat ?n\<bar> \<le> (1 / 2 :: rat)"
    if "0 < ?p" "?n < 2 ^ 32"
  proof (rule percent_bound)
    show "0 < ?n" "?c \<le> ?n"
      using that(1) sum by linarith+
    show "?n < 2 ^ 32"
      by (rule that(2))
  qed
  show ?thesis
    unfolding Let_def using sum p pc pf msg fin bound by blast
qed

theorem checkJobs_counts_witness:
  "Body Null \<notin> mixed_server ` set three_jobs
   \<and> length three_details \<le> length three_jobs
   \<and> map_option completed (progress (snd (checkJobs True three_jobs three_details mixed_server
         (start_loop, view_three)))) = Some (Some 1)
   \<and> map_option failed (progress (snd (checkJobs True three_jobs three_details mixed_server
         (start_loop, view_three)))) = Some (Some 1)
   \<and> uploadStatus (snd (checkJobs True three_jobs three_details mixed_server
         (start_loop, view_three))) = Processing 1 3 33 0 (Some 1)
   \<and> length three_jobs < 2 ^ 32
   \<and> \<bar>of_int (percent 1 3) - 100 * of_nat 1 / of_nat 3\<bar> \<le> (1 / 2 :: rat)
   \<and> Body Null \<notin> settled_server ` set three_jobs
   \<and> map_option completed (progress (snd (checkJobs True three_jobs three_details settled_server
         (start_loop, view_three)))) = Some (Some 1)
   \<and> map_option failed (progress (snd (checkJobs True three_jobs three_details settled_server
         (start_loop, view_three)))) = Some (Some 2)
   \<and> uploadStatus (snd (checkJobs True three_jobs three_details settled_server
         (start_loop, view_three))) = ProcessingComplete 1 2"
proof -
  have a: "Body Null \<notin> mixed_server ` set three_jobs"
    and a': "Body Null \<notin> settled_server ` set three_jobs"
    by (simp_all add: mixed_server_def settled_server_def three_jobs_def reply_with_def)
  have b: "length three_details \<le> length three_jobs"
    by (simp add: three_details_def three_jobs_def)
  have n: "length three_jobs = 3"
    by (simp add: three_jobs_def)
  have m: "length (filter (\<lambda>j. reports ''finished'' (mixed_server j)) three_jobs) = 1"
    "length (filter (\<lambda>j. reports ''failed'' (mixed_server j)) three_jobs) = 1"
    "length (filter (\<lambda>j. \<not> reports ''finished'' (mixed_server j)
        \<and> \<not> reports ''failed'' (mixed_server j)) three_jobs) = 1"
    by (simp_all add: mixed_server_def three_jobs_def reports_def reply_with_def)
  have s: "length (filter (\<lambda>j. reports ''finished'' (settled_server j)) three_jobs) = 1"
    "length (filter (\<lambda>j. reports ''failed'' (settled_server j)) three_jobs) = 2"
    "length (filter (\<lambda>j. \<not> reports ''finished'' (settled_server j)
        \<and> \<not> reports ''failed'' (settled_server j)) three_jobs) = 0"
    by (simp_all add: settled_server_def three_jobs_def reports_def reply_with_def)
  have at: "attempts start_loop = 0"
    by (simp add: start_loop_def)
  note t1 = checkJobs_counts [OF a b, of True start_loop view_three, unfolded Let_def m n at]
  note t2 = checkJobs_counts [OF a' b, of True start_loop view_three, unfolded Let_def s n at]
  have pc: "percent (Suc 0) 3 = 33"
    using percent_1_3 by simp
  show ?thesis
    using a a' b t1 t2 by (simp add: n pc)
qed

section \<open>Transient errors of a status request (C2)\<close>

text \<open>
  Claim C2: when the status request of a job fails transiently in round \<open>k\<close>, the job's
  displayed state after round \<open>k\<close> is the one after round \<open>k - 1\<close>, the job is requested
  again in round \<open>k + 1\<close>, and the error is never shown as a failure of the job.

  The single-job loop does not request the job again. One file is uploaded and its first
  status request is rejected: the exception is logged, the display stays as it was, and no
  timer is set. Whatever the server would answer afterwards (here: finished), the job is
  never requested again and the file is shown as processing for good. The multi-job loop,
  on the batch of this one job and the same rejection, sets its next timer.
\<close>

theorem pollJobCompletion_stops_on_transient_error:
  "first_rejected ''job-1'' = Rejected
   \<and> checkStatus True ''job-1'' ''a.pdf'' first_rejected (start_loop, single_view) =
       (start_loop\<lparr>timer := None, requests := [''job-1''], logged := 1\<rparr>, single_view)
   \<and> run_checkStatus True ''job-1'' ''a.pdf'' [first_rejected, always_finished, always_finished]
         (start_loop, single_view) =
       (start_loop\<lparr>timer := None, requests := [''job-1''], logged := 1\<rparr>, single_view)
   \<and> map status (processingDetails single_view) = [''processing'']
   \<and> timer (fst (checkJobs True [''job-1''] [queued_detail ''a.pdf'' ''job-1''] first_rejected
         (start_loop, single_view))) = Some 3000"
  by (simp add: ex_defs multi_defs checkStatus_def single_view_def single_body_def
      handleUpload_def upload_single_def)

text \<open>
  The multi-job loop does what the claim says for a job that is not terminal: when the
  status request of a job is rejected in a round that throws nothing, the job is shown as
  processing after the round (never as failed), the next round is scheduled three seconds
  ahead, and that round requests every job of the batch again.
\<close>

theorem checkJobs_transient_error:
  assumes "Body Null \<notin> srv ` set jobIds" "length fileDetails \<le> length jobIds"
    and "i < length fileDetails" "srv (jobIds ! i) = Rejected"
  shows "status (processingDetails (snd (checkJobs cb jobIds fileDetails srv (l, v))) ! i) = ''processing''
     \<and> timer (fst (checkJobs cb jobIds fileDetails srv (l, v))) = Some 3000
     \<and> requests (fst (run_checkJobs cb jobIds fileDetails [srv']
          (checkJobs cb jobIds fileDetails srv (l, v)))) = requests l @ jobIds @ jobIds"
proof -
  let ?ss = "round_statuses srv jobIds"
  have i: "i < length jobIds"
    using assms(2,3) by simp
  have si: "?ss ! i = Obj (Some ''unknown'') None"
    using i assms(4) by (simp add: round_statuses_def fetch_status_def)
  have st: "status (processingDetails (snd (checkJobs cb jobIds fileDetails srv (l, v))) ! i) =
      ''processing''"
    using assms(3) i si
    by (simp add: checkJobs_details [OF assms(1,2)] round_statuses_def shown_detail_def
        display_status_def status_field_def)
  have "?ss ! i \<in> set ?ss"
    using i by (simp add: round_statuses_def)
  moreover have "\<not> terminal (Obj (Some ''unknown'') None)"
    by (simp add: terminal_def has_status_def status_field_def)
  ultimately have "filter (\<lambda>s. \<not> terminal s) ?ss \<noteq> []"
    using si unfolding filter_empty_conv by metis
  then have t: "timer (fst (checkJobs cb jobIds fileDetails srv (l, v))) = Some 3000"
    by (simp add: checkJobs_timer [OF assms(1,2)])
  have "requests (fst (run_checkJobs cb jobIds fileDetails [srv']
          (checkJobs cb jobIds fileDetails srv (l, v)))) = requests l @ jobIds @ jobIds"
    using t by (simp add: checkJobs_requests)
  with st t show ?thesis
    by blast
qed

theorem checkJobs_transient_error_example:
  "Body Null \<notin> first_rejected ` set two_jobs
   \<and> length two_details \<le> length two_jobs
   \<and> 0 < length two_details
   \<and> first_rejected (two_jobs ! 0) = Rejected
   \<and> status (processingDetails (snd (checkJobs True two_jobs two_details first_rejected
         (start_loop, empty_view))) ! 0) = ''processing''
   \<and> timer (fst (checkJobs True two_jobs two_details first_rejected (start_loop, empty_view))) =
       Some 3000
   \<and> requests (fst (run_checkJobs True two_jobs two_details [always_finished]
          (checkJobs True two_jobs two_details first_rejected (start_loop, empty_view)))) =
       [''job-1'', ''job-2'', ''job-1'', ''job-2'']"
proof -
  have a: "Body Null \<notin> first_rejected ` set two_jobs"
    by (rule first_rejected_no_Null)
  have b: "length two_details \<le> length two_jobs"
    by (simp add: two_details_def two_jobs_def)
  have c: "0 < length two_details"
    by (simp add: two_details_def)
  have d: "first_rejected (two_jobs ! 0) = Rejected"
    by (simp add: first_rejected_def two_jobs_def)
  have e: "requests start_loop @ two_jobs @ two_jobs = [''job-1'', ''job-2'', ''job-1'', ''job-2'']"
    by (simp add: start_loop_def two_jobs_def)
  show ?thesis
    using a b c d checkJobs_transient_error [OF a b c d, of True start_loop empty_view always_finished]
    by (simp only: e simp_thms)
qed

section \<open>Terminal jobs (C3)\<close>











section \<open>A new batch during an active loop (C4)\<close>

text \<open>
  Claim C4 as stated fails. Two files are uploaded and their loop is started; two other
  files are selected and uploaded; then the timer of the first loop fires. The panel,
  which showed the files of the second batch, now shows those of the first as complete,
  with the status text and the counts of the first batch.
\<close>

theorem superseded_batch_counterexample:
  "snd (snd (handleUpload (empty_view\<lparr>files := [''a.pdf'', ''b.pdf'']\<rparr>)
       (Ok (upload_body_of two_details two_jobs)))) = Some (MultiPoll two_jobs two_details)
   \<and> map filename (processingDetails view_b) = [''c.pdf'', ''d.pdf'']
   \<and> map filename (processingDetails (snd (checkJobs True two_jobs two_details always_finished
        (start_loop, view_b)))) = [''a.pdf'', ''b.pdf'']
   \<and> map status (processingDetails (snd (checkJobs True two_jobs two_details always_finished
        (start_loop, view_b)))) = [''complete'', ''complete'']
   \<and> uploadStatus (snd (checkJobs True two_jobs two_details always_finished
        (start_loop, view_b))) = AllProcessed 2
   \<and> progress (snd (checkJobs True two_jobs two_details always_finished (start_loop, view_b))) =
        Some \<lparr>total = Some 2, successful = Some 2, failed = Some 0, completed = Some 2\<rparr>"
  by (simp add: ex_defs multi_defs view_a_def view_b_def other_details_def upload_body_of_def
      handleUpload_def upload_multiple_def handleFileChange_def initial_detail_def)

text \<open>
  Claim C4, amended: the code has no notion of a superseded batch. Every round of a poll
  loop that throws nothing overwrites the shared display: the per-file details become the
  files of the loop's own batch with this round's states, and the details, the status text
  and the completed and failed counts after the round do not depend on what was displayed
  before it.
\<close>

theorem checkJobs_overwrites_display:
  assumes "Body Null \<notin> srv ` set jobIds" "length fileDetails \<le> length jobIds"
  shows "map filename (processingDetails (snd (checkJobs cb jobIds fileDetails srv (l, v)))) =
           map fd_filename fileDetails
     \<and> processingDetails (snd (checkJobs cb jobIds fileDetails srv (l, v))) =
         processingDetails (snd (checkJobs cb jobIds fileDetails srv (l, v')))
     \<and> uploadStatus (snd (checkJobs cb jobIds fileDetails srv (l, v))) =
         uploadStatus (snd (checkJobs cb jobIds fileDetails srv (l, v')))
     \<and> map_option completed (progress (snd (checkJobs cb jobIds fileDetails srv (l, v)))) =
         map_option completed (progress (snd (checkJobs cb jobIds fileDetails srv (l, v'))))
     \<and> map_option failed (progress (snd (checkJobs cb jobIds fileDetails srv (l, v)))) =
         map_option failed (progress (snd (checkJobs cb jobIds fileDetails srv (l, v'))))"
proof -
  let ?ss = "round_statuses srv jobIds"
  have len: "length fileDetails \<le> length ?ss"
    using assms(2) by (simp add: round_statuses_def)
  have m: "length ds \<le> length ss \<Longrightarrow>
      map filename (map2 (\<lambda>d s. shown_detail d (status_field s) (error_field s)) ds ss) =
      map fd_filename ds" for ds ss
    by (induction ds ss rule: list_induct2') (simp_all add: shown_detail_def)
  have "map filename (processingDetails (snd (checkJobs cb jobIds fileDetails srv (l, v)))) =
           map fd_filename fileDetails"
    by (simp only: checkJobs_details [OF assms] m [OF len])
  moreover have "processingDetails (snd (checkJobs cb jobIds fileDetails srv (l, v))) =
         processingDetails (snd (checkJobs cb jobIds fileDetails srv (l, v')))"
    by (simp only: checkJobs_details [OF assms])
  moreover have "uploadStatus (snd (checkJobs cb jobIds fileDetails srv (l, v))) =
         uploadStatus (snd (checkJobs cb jobIds fileDetails srv (l, v')))"
    by (simp add: checkJobs_eq [OF assms] report_def Let_def)
  moreover have "map_option completed (progress (snd (checkJobs cb jobIds fileDetails srv (l, v)))) =
         map_option completed (progress (snd (checkJobs cb jobIds fileDetails srv (l, v'))))"
    by (simp add: checkJobs_eq [OF assms] report_progress merge_progress_def)
  moreover have "map_option failed (progress (snd (checkJobs cb jobIds fileDetails srv (l, v)))) =
         map_option failed (progress (snd (checkJobs cb jobIds fileDetails srv (l, v'))))"
    by (simp add: checkJobs_eq [OF assms] report_progress merge_progress_def)
  ultimately show ?thesis
    by blast
qed

theorem checkJobs_overwrites_display_witness:
  "Body Null \<notin> always_finished ` set two_jobs
   \<and> length two_details \<le> length two_jobs
   \<and> map filename (processingDetails (snd (checkJobs True two_jobs two_details always_finished
         (start_loop, view_b)))) = [''a.pdf'', ''b.pdf'']
   \<and> processingDetails (snd (checkJobs True two_jobs two_details always_finished (start_loop, view_b))) =
       processingDetails (snd (checkJobs True two_jobs two_details always_finished (start_loop, view_a)))
   \<and> uploadStatus (snd (checkJobs True two_jobs two_details always_finished (start_loop, view_b))) =
       uploadStatus (snd (checkJobs True two_jobs two_details always_finished (start_loop, view_a)))"
proof -
  have a: "Body Null \<notin> always_finished ` set two_jobs"
    by (rule always_finished_no_Null)
  have b: "length two_details \<le> length two_jobs"
    by (simp add: two_details_def two_jobs_def)
  have e: "map fd_filename two_details = [''a.pdf'', ''b.pdf'']"
    by (simp add: two_details_def queued_detail_def)
  show ?thesis
    using a b checkJobs_overwrites_display [OF a b, of True start_loop view_b view_a, unfolded e]
    by blast
qed

section \<open>Facts about the single-job loop\<close>

lemma checkJobs_one:
  "srv jid = Body (Obj st err) \<Longrightarrow>
   checkJobs cb [jid] [d] srv (l, v) =
     report cb 1 (if st = Some ''finished'' then 1 else 0) (if st = Some ''failed'' then 1 else 0)
       (l\<lparr>timer := None, requests := requests l @ [jid]\<rparr>,
        v\<lparr>processingDetails := [shown_detail d st err]\<rparr>)"
  by (simp add: checkJobs_def fetch_status_def Let_def)

lemma step_terminal:
  assumes "srv jid = Body (Obj st err)" "st = Some ''finished'' \<or> st = Some ''failed''"
    and "fd_filename d = fname" "job_id d = Some jid"
    and "attempts l1 = attempts l2" "requests l1 = requests l2"
  shows "same_display (checkStatus cb jid fname srv (l1, v1)) (checkJobs cb [jid] [d] srv (l2, v2))
     \<and> timer (fst (checkStatus cb jid fname srv (l1, v1))) = None
     \<and> timer (fst (checkJobs cb [jid] [d] srv (l2, v2))) = None"
  using assms
  by (auto simp: checkJobs_one same_display_def checkStatus_def report_def still_processing_def
      shown_detail_def display_status_def Let_def)

lemma step_waiting:
  assumes "srv jid = Body (Obj st err)" "st \<noteq> Some ''finished''" "st \<noteq> Some ''failed''"
    and "fd_filename d = fname" "job_id d = Some jid"
    and "attempts l1 < maxAttempts"
  shows "checkStatus cb jid fname srv (l1, v1) =
           (l1\<lparr>timer := Some 2000, requests := requests l1 @ [jid], attempts := Suc (attempts l1)\<rparr>,
            v1\<lparr>uploadStatus := ProcessingDocument (Suc (attempts l1) * 2 div 60)
                   (Suc (attempts l1) * 2 mod 60)\<rparr>)
     \<and> fst (checkJobs cb [jid] [d] srv (l2, v2)) =
           l2\<lparr>timer := Some 3000, requests := requests l2 @ [jid], attempts := Suc (attempts l2)\<rparr>
     \<and> processingDetails (snd (checkJobs cb [jid] [d] srv (l2, v2))) = [waiting_detail fname jid]"
  using assms
  by (simp add: checkJobs_one checkStatus_def report_def still_processing_def
      shown_detail_def display_status_def waiting_detail_def Let_def)

lemma sim_run:
  assumes d: "fd_filename d = fname" "job_id d = Some jid"
  shows "\<lbrakk>attempts l1 = attempts l2; requests l1 = requests l2;
          timer l1 \<noteq> None; timer l2 \<noteq> None;
          processingDetails v1 = [waiting_detail fname jid];
          processingDetails v2 = [waiting_detail fname jid];
          attempts l1 + length rounds \<le> maxAttempts;
          Rejected \<notin> (\<lambda>srv. srv jid) ` set rounds;
          Body Null \<notin> (\<lambda>srv. srv jid) ` set rounds\<rbrakk>
         \<Longrightarrow> same_display (run_checkStatus cb jid fname rounds (l1, v1))
               (run_checkJobs cb [jid] [d] rounds (l2, v2))"
proof (induction rounds arbitrary: l1 v1 l2 v2)
  case Nil
  then show ?case by (auto simp: same_display_def)
next
  case (Cons srv rest)
  from Cons.prems obtain st err where r: "srv jid = Body (Obj st err)"
    by (cases "srv jid"; cases "case srv jid of Body b \<Rightarrow> b | Rejected \<Rightarrow> Null") force+
  obtain t1 t2 where t: "timer l1 = Some t1" "timer l2 = Some t2"
    using Cons.prems by auto
  show ?case
  proof (cases "st = Some ''finished'' \<or> st = Some ''failed''")
    case True
    note s = step_terminal [where srv = srv and jid = jid and ?v1.0 = v1 and ?v2.0 = v2 and cb = cb,
        OF r True d Cons.prems(1,2)]
    then show ?thesis
      using t by (simp add: run_checkStatus_stopped run_checkJobs_stopped)
  next
    case False
    then have nf: "st \<noteq> Some ''finished''" "st \<noteq> Some ''failed''" by auto
    have lt: "attempts l1 < maxAttempts"
      using Cons.prems(7) by simp
    note w0 = step_waiting [where srv = srv and jid = jid and ?v1.0 = v1 and ?v2.0 = v2
        and ?l2.0 = l2 and cb = cb, OF r nf d lt]
    note w = conjunct1 [OF w0] conjunct1 [OF conjunct2 [OF w0]] conjunct2 [OF conjunct2 [OF w0]]
    obtain l2' v2' where s2: "checkJobs cb [jid] [d] srv (l2, v2) = (l2', v2')"
      by (cases "checkJobs cb [jid] [d] srv (l2, v2)")
    have l2': "l2' = l2\<lparr>timer := Some 3000, requests := requests l2 @ [jid],
        attempts := Suc (attempts l2)\<rparr>"
      and v2': "processingDetails v2' = [waiting_detail fname jid]"
      using w(2,3) s2 by simp_all
    have "same_display
        (run_checkStatus cb jid fname rest
          (l1\<lparr>timer := Some 2000, requests := requests l1 @ [jid], attempts := Suc (attempts l1)\<rparr>,
           v1\<lparr>uploadStatus := ProcessingDocument (Suc (attempts l1) * 2 div 60)
                   (Suc (attempts l1) * 2 mod 60)\<rparr>))
        (run_checkJobs cb [jid] [d] rest (l2', v2'))"
      using Cons.prems l2' v2' by (intro Cons.IH) simp_all
    then show ?thesis
      using t w(1) s2 by simp
  qed
qed

lemma run_checkStatus_append:
  "run_checkStatus cb j f (xs @ ys) s = run_checkStatus cb j f ys (run_checkStatus cb j f xs s)"
proof (induction xs arbitrary: s)
  case Nil
  then show ?case by simp
next
  case (Cons srv xs)
  then show ?case
    by (cases "timer (fst s)") (simp_all add: run_checkStatus_stopped)
qed

lemma checkStatus_always_queued:
  "attempts l < maxAttempts \<Longrightarrow>
   fst (checkStatus cb j f always_queued (l, v)) =
     l\<lparr>attempts := Suc (attempts l), timer := Some 2000, requests := requests l @ [j]\<rparr>"
  by (simp add: checkStatus_def always_queued_def reply_with_def Let_def)

text \<open>
  While the server answers "queued", the single-job loop runs one round per timer event
  as long as the counter stays within the bound.
\<close>

lemma run_checkStatus_always_queued:
  "timer l \<noteq> None \<Longrightarrow> attempts l + n \<le> maxAttempts \<Longrightarrow>
   fst (run_checkStatus cb j f (replicate n always_queued) (l, v)) =
     l\<lparr>attempts := attempts l + n,
        timer := (if n = 0 then timer l else Some 2000),
        requests := requests l @ replicate n j\<rparr>"
proof (induction n arbitrary: l v)
  case 0
  then show ?case by simp
next
  case (Suc n)
  obtain l' v' where step: "checkStatus cb j f always_queued (l, v) = (l', v')"
    by (cases "checkStatus cb j f always_queued (l, v)")
  have "attempts l < maxAttempts"
    using Suc.prems(2) by simp
  then have l': "l' = l\<lparr>attempts := Suc (attempts l), timer := Some 2000, requests := requests l @ [j]\<rparr>"
    using checkStatus_always_queued [of l cb j f v] step by simp
  then have "timer l' \<noteq> None" "attempts l' + n \<le> maxAttempts"
    using Suc.prems(2) by simp_all
  from Suc.IH [OF this, of v'] Suc.prems(1) step l' show ?case
    by (auto simp: replicate_append_same split: option.splits)
qed

text \<open>
  The round after the bound: the single-job loop requests the job once more, sets the
  "taking longer" status and sets no timer.
\<close>

lemma run_checkStatus_exhausted:
  "run_checkStatus cb j f (replicate (Suc maxAttempts) always_queued) (start_loop, v) =
     (l, v') \<Longrightarrow>
   timer l = None \<and> uploadStatus v' = TakingLonger \<and> length (requests l) = Suc maxAttempts"
proof -
  assume r: "run_checkStatus cb j f (replicate (Suc maxAttempts) always_queued) (start_loop, v) =
     (l, v')"
  obtain l0 v0 where s0: "run_checkStatus cb j f (replicate maxAttempts always_queued) (start_loop, v) =
      (l0, v0)"
    by (cases "run_checkStatus cb j f (replicate maxAttempts always_queued) (start_loop, v)")
  have "timer start_loop \<noteq> None" "attempts start_loop + maxAttempts \<le> maxAttempts"
    by (simp_all add: start_loop_def)
  from run_checkStatus_always_queued [OF this, of cb j f v] s0
  have l0: "l0 = start_loop\<lparr>attempts := maxAttempts, timer := Some 2000,
      requests := replicate maxAttempts j\<rparr>"
    by (simp add: start_loop_def maxAttempts_def)
  have "replicate (Suc maxAttempts) always_queued = replicate maxAttempts always_queued @ [always_queued]"
    by (simp add: replicate_append_same)
  then have "(l, v') = run_checkStatus cb j f [always_queued] (l0, v0)"
    using r s0 by (simp only: run_checkStatus_append)
  then show ?thesis
    using l0 by (simp add: checkStatus_def always_queued_def reply_with_def Let_def)
qed

section \<open>The single-job loop against the multi-job loop (C5)\<close>

text \<open>
  Claim C5 as stated fails: on the same answers the two loops differ. After a "queued"
  answer the single-job loop waits two seconds and the multi-job loop on a batch of one
  waits three. After a rejected request the single-job loop stops and the multi-job loop
  goes on. After a "failed" answer only the multi-job loop sets the timer of
  \<^verbatim>\<open>onUploadSuccess\<close>. And after 61 "queued" answers the single-job loop has stopped with
  the "taking longer" status while the multi-job loop has its next timer set.
\<close>

theorem single_multi_counterexample:
  "timer (fst (checkStatus True ''job-1'' ''a.pdf'' always_queued (start_loop, single_view))) = Some 2000
   \<and> timer (fst (checkJobs True [''job-1''] [queued_detail ''a.pdf'' ''job-1''] always_queued
        (start_loop, single_view))) = Some 3000
   \<and> timer (fst (checkStatus True ''job-1'' ''a.pdf'' first_rejected (start_loop, single_view))) = None
   \<and> timer (fst (checkJobs True [''job-1''] [queued_detail ''a.pdf'' ''job-1''] first_rejected
        (start_loop, single_view))) = Some 3000
   \<and> notified (fst (checkStatus True ''job-1'' ''a.pdf'' always_failed (start_loop, single_view))) = 0
   \<and> notified (fst (checkJobs True [''job-1''] [queued_detail ''a.pdf'' ''job-1''] always_failed
        (start_loop, single_view))) = 1
   \<and> timer (fst (run_checkStatus True ''job-1'' ''a.pdf'' (replicate (Suc maxAttempts) always_queued)
        (start_loop, single_view))) = None
   \<and> uploadStatus (snd (run_checkStatus True ''job-1'' ''a.pdf''
        (replicate (Suc maxAttempts) always_queued) (start_loop, single_view))) = TakingLonger
   \<and> timer (fst (run_checkJobs True [''job-1''] [queued_detail ''a.pdf'' ''job-1'']
        (replicate (Suc maxAttempts) always_queued) (start_loop, single_view))) = Some 3000"
proof -
  let ?s = "run_checkStatus True ''job-1'' ''a.pdf'' (replicate (Suc maxAttempts) always_queued)
        (start_loop, single_view)"
  have one: "timer (fst (checkStatus True ''job-1'' ''a.pdf'' always_queued (start_loop, single_view))) = Some 2000
   \<and> timer (fst (checkJobs True [''job-1''] [queued_detail ''a.pdf'' ''job-1''] always_queued
        (start_loop, single_view))) = Some 3000
   \<and> timer (fst (checkStatus True ''job-1'' ''a.pdf'' first_rejected (start_loop, single_view))) = None
   \<and> timer (fst (checkJobs True [''job-1''] [queued_detail ''a.pdf'' ''job-1''] first_rejected
        (start_loop, single_view))) = Some 3000
   \<and> notified (fst (checkStatus True ''job-1'' ''a.pdf'' always_failed (start_loop, single_view))) = 0
   \<and> notified (fst (checkJobs True [''job-1''] [queued_detail ''a.pdf'' ''job-1''] always_failed
        (start_loop, single_view))) = 1"
    by (simp add: ex_defs multi_defs checkStatus_def always_failed_def maxAttempts_def)
  have "?s = (fst ?s, snd ?s)"
    by simp
  from run_checkStatus_exhausted [OF this]
  have two: "timer (fst ?s) = None \<and> uploadStatus (snd ?s) = TakingLonger"
    by simp
  have "timer start_loop \<noteq> None"
    by (simp add: start_loop_def)
  from run_checkJobs_always_queued [OF _ _ this, of "[''job-1'']" "[queued_detail ''a.pdf'' ''job-1'']"
      True "Suc maxAttempts" single_view]
  have three: "timer (fst (run_checkJobs True [''job-1''] [queued_detail ''a.pdf'' ''job-1'']
        (replicate (Suc maxAttempts) always_queued) (start_loop, single_view))) = Some 3000"
    by simp
  from one two three show ?thesis
    by blast
qed

text \<open>
  Claim C5, amended: for every sequence of at most \<open>maxAttempts\<close> answers to the status
  request, none of them a rejection or a \<^verbatim>\<open>null\<close> body, the single-job loop and the
  multi-job loop on the batch of that one job, both started on the display that the
  upload leaves (the file shown as processing, with its job id), agree after
  the last answer on the counter, on the requests issued, on whether a further round is
  pending, and on the per-file details displayed. The two loops are written
  separately: their polling intervals (two and three seconds) and their status texts
  differ.
\<close>

theorem single_job_path_same_display:
  assumes "fd_filename d = fname" "job_id d = Some jid"
    and "processingDetails v = [waiting_detail fname jid]"
    and "length rounds \<le> maxAttempts"
    and "Rejected \<notin> (\<lambda>srv. srv jid) ` set rounds"
    and "Body Null \<notin> (\<lambda>srv. srv jid) ` set rounds"
  shows "same_display (run_checkStatus cb jid fname rounds (start_loop, v))
           (run_checkJobs cb [jid] [d] rounds (start_loop, v))"
  using assms(3-6) by (intro sim_run [OF assms(1,2)]) (simp_all add: start_loop_def)

theorem single_job_path_same_display_witness:
  "fd_filename (queued_detail ''a.pdf'' ''job-1'') = ''a.pdf''
   \<and> job_id (queued_detail ''a.pdf'' ''job-1'') = Some ''job-1''
   \<and> processingDetails single_view = [waiting_detail ''a.pdf'' ''job-1'']
   \<and> length [always_queued, always_queued, always_finished] \<le> maxAttempts
   \<and> Rejected \<notin> (\<lambda>srv. srv ''job-1'') ` set [always_queued, always_queued, always_finished]
   \<and> Body Null \<notin> (\<lambda>srv. srv ''job-1'') ` set [always_queued, always_queued, always_finished]
   \<and> same_display
       (run_checkStatus True ''job-1'' ''a.pdf'' [always_queued, always_queued, always_finished]
          (start_loop, single_view))
       (run_checkJobs True [''job-1''] [queued_detail ''a.pdf'' ''job-1'']
          [always_queued, always_queued, always_finished] (start_loop, single_view))"
proof -
  have a: "fd_filename (queued_detail ''a.pdf'' ''job-1'') = ''a.pdf''"
    and b: "job_id (queued_detail ''a.pdf'' ''job-1'') = Some ''job-1''"
    by (simp_all add: queued_detail_def)
  have c: "processingDetails single_view = [waiting_detail ''a.pdf'' ''job-1'']"
    by (simp add: single_view_def single_body_def handleUpload_def upload_single_def
        empty_view_def waiting_detail_def)
  have d: "length [always_queued, always_queued, always_finished] \<le> maxAttempts"
    by (simp add: maxAttempts_def)
  have e: "Rejected \<notin> (\<lambda>srv. srv ''job-1'') ` set [always_queued, always_queued, always_finished]"
    and f: "Body Null \<notin> (\<lambda>srv. srv ''job-1'') ` set [always_queued, always_queued, always_finished]"
    by (simp_all add: always_queued_def always_finished_def reply_with_def)
  show ?thesis
    using a b c d e f single_job_path_same_display [OF a b c d e f, of True]
    by blast
qed

section \<open>The state after submission (C6)\<close>

text \<open>
  Claim C6 as stated fails: after the upload of one file the file is shown as processing,
  not as queued, and for the answers queued, queued, finished the displayed sequence is
  not queued, processing, processing, complete.
\<close>

theorem initial_state_counterexample:
  "map status (processingDetails (fst (handleUpload (empty_view\<lparr>files := [''a.pdf'']\<rparr>)
       (Ok single_body)))) = [''processing'']
   \<and> snd (snd (handleUpload (empty_view\<lparr>files := [''a.pdf'']\<rparr>) (Ok single_body))) =
       Some (SinglePoll ''job-1'' ''a.pdf'')
   \<and> map (\<lambda>rounds. map status (processingDetails (snd (run_checkStatus True ''job-1'' ''a.pdf'' rounds
          (start_loop, fst (handleUpload (empty_view\<lparr>files := [''a.pdf'']\<rparr>) (Ok single_body)))))))
       [[], [always_queued], [always_queued, always_queued],
        [always_queued, always_queued, always_finished]] \<noteq>
       [[''queued''], [''processing''], [''processing''], [''complete'']]"
  by (simp add: handleUpload_def upload_single_def empty_view_def single_body_def)

text \<open>
  Claim C6, amended: a file is shown as \<open>processing\<close> right after a successful submission
  (in an upload of several files, as \<open>failed\<close> when its detail in the reply is not "queued");
  \<open>queued\<close> is never a displayed state. In the single-job loop a status check that fails
  leaves the display as it is, and a successful one shows, for the file shown as
  processing, the state of its answer:
  complete for "finished", failed for "failed", processing otherwise. For one file whose
  status is reported as queued, queued, finished the displayed sequence is processing,
  processing, processing, complete.
\<close>

theorem handleUpload_initial_state:
  "(files v = [f] \<longrightarrow>
      map status (processingDetails (fst (handleUpload v (Ok data)))) = [''processing''])
   \<and> (2 \<le> length (files v) \<and> length (files v) \<le> 20 \<and> details data = Some ds \<longrightarrow>
      map status (processingDetails (fst (handleUpload v (Ok data)))) =
        map (\<lambda>d. if fd_status d = Some ''queued'' then ''processing'' else ''failed'') ds)
   \<and> (srv jid = Rejected \<or> srv jid = Body Null \<longrightarrow>
      processingDetails (snd (checkStatus cb jid fname srv (l, w))) = processingDetails w)
   \<and> (srv jid = Body (Obj st err) \<and> map status (processingDetails w) = [''processing''] \<longrightarrow>
      map status (processingDetails (snd (checkStatus cb jid fname srv (l, w)))) =
        [display_status st])
   \<and> map (\<lambda>rounds. map status (processingDetails (snd (run_checkStatus True ''job-1'' ''a.pdf'' rounds
          (start_loop, fst (handleUpload (empty_view\<lparr>files := [''a.pdf'']\<rparr>) (Ok single_body)))))))
       [[], [always_queued], [always_queued, always_queued],
        [always_queued, always_queued, always_finished]] =
       [[''processing''], [''processing''], [''processing''], [''complete'']]"
proof -
  have a: "map status (processingDetails (fst (handleUpload v (Ok data)))) = [''processing'']"
    if "files v = [f]"
    using that by (simp add: handleUpload_def upload_single_def)
  have b: "map status (processingDetails (fst (handleUpload v (Ok data)))) =
        map (\<lambda>d. if fd_status d = Some ''queued'' then ''processing'' else ''failed'') ds"
    if "2 \<le> length (files v) \<and> length (files v) \<le> 20 \<and> details data = Some ds"
    using that
    by (auto simp: handleUpload_def upload_multiple_def initial_detail_def Let_def comp_def
        split: list.splits)
  have c: "processingDetails (snd (checkStatus cb jid fname srv (l, w))) = processingDetails w"
    if "srv jid = Rejected \<or> srv jid = Body Null"
    using that by (auto simp: checkStatus_def Let_def)
  have d: "map status (processingDetails (snd (checkStatus cb jid fname srv (l, w)))) =
        [display_status st]"
    if "srv jid = Body (Obj st err) \<and> map status (processingDetails w) = [''processing'']"
    using that by (simp add: checkStatus_def display_status_def Let_def)
  have e: "map (\<lambda>rounds. map status (processingDetails (snd (run_checkStatus True ''job-1'' ''a.pdf'' rounds
          (start_loop, fst (handleUpload (empty_view\<lparr>files := [''a.pdf'']\<rparr>) (Ok single_body)))))))
       [[], [always_queued], [always_queued, always_queued],
        [always_queued, always_queued, always_finished]] =
       [[''processing''], [''processing''], [''processing''], [''complete'']]"
    by (simp add: handleUpload_def upload_single_def empty_view_def single_body_def
        checkStatus_def ex_defs maxAttempts_def Let_def)
  from a b c d e show ?thesis
    by blast
qed

theorem handleUpload_initial_state_witness:
  "files (empty_view\<lparr>files := [''a.pdf'']\<rparr>) = [''a.pdf'']
   \<and> map status (processingDetails (fst (handleUpload (empty_view\<lparr>files := [''a.pdf'']\<rparr>)
        (Ok single_body)))) = [''processing'']
   \<and> 2 \<le> length (files (empty_view\<lparr>files := [''a.pdf'', ''b.pdf'']\<rparr>))
   \<and> length (files (empty_view\<lparr>files := [''a.pdf'', ''b.pdf'']\<rparr>)) \<le> 20
   \<and> details (upload_body_of two_details two_jobs) = Some two_details
   \<and> map status (processingDetails (fst (handleUpload (empty_view\<lparr>files := [''a.pdf'', ''b.pdf'']\<rparr>)
        (Ok (upload_body_of two_details two_jobs))))) = [''processing'', ''processing'']
   \<and> first_rejected ''job-1'' = Rejected
   \<and> processingDetails (snd (checkStatus True ''job-1'' ''a.pdf'' first_rejected (start_loop, single_view))) =
       processingDetails single_view
   \<and> always_finished ''job-1'' = Body (Obj (Some ''finished'') None)
   \<and> map status (processingDetails single_view) = [''processing'']
   \<and> map status (processingDetails (snd (checkStatus True ''job-1'' ''a.pdf'' always_finished
        (start_loop, single_view)))) = [''complete'']"
proof -
  have a: "files (empty_view\<lparr>files := [''a.pdf'']\<rparr>) = [''a.pdf'']"
    by (simp add: empty_view_def)
  have m: "2 \<le> length (files (empty_view\<lparr>files := [''a.pdf'', ''b.pdf'']\<rparr>))
      \<and> length (files (empty_view\<lparr>files := [''a.pdf'', ''b.pdf'']\<rparr>)) \<le> 20
      \<and> details (upload_body_of two_details two_jobs) = Some two_details"
    by (simp add: empty_view_def upload_body_of_def)
  have b: "first_rejected ''job-1'' = Rejected"
    by (simp add: first_rejected_def)
  have c: "always_finished ''job-1'' = Body (Obj (Some ''finished'') None)"
    by (simp add: always_finished_def reply_with_def)
  have d: "map status (processingDetails single_view) = [''processing'']"
    by (simp add: single_view_def single_body_def handleUpload_def upload_single_def
        empty_view_def)
  have e: "[display_status (Some ''finished'')] = [''complete'']"
    by (simp add: display_status_def)
  have f: "map (\<lambda>d. if fd_status d = Some ''queued'' then ''processing'' else ''failed'') two_details =
      [''processing'', ''processing'']"
    by (simp add: two_details_def queued_detail_def)
  have r1: "map status (processingDetails (fst (handleUpload (empty_view\<lparr>files := [''a.pdf'']\<rparr>)
        (Ok single_body)))) = [''processing'']"
    using a handleUpload_initial_state [of "empty_view\<lparr>files := [''a.pdf'']\<rparr>" "''a.pdf''" single_body
        two_details first_rejected "''job-1''" True "''a.pdf''" start_loop single_view None None]
    by blast
  have r2: "map status (processingDetails (fst (handleUpload (empty_view\<lparr>files := [''a.pdf'', ''b.pdf'']\<rparr>)
        (Ok (upload_body_of two_details two_jobs))))) = [''processing'', ''processing'']"
    using m handleUpload_initial_state [of "empty_view\<lparr>files := [''a.pdf'', ''b.pdf'']\<rparr>" "''a.pdf''"
        "upload_body_of two_details two_jobs" two_details first_rejected "''job-1''" True "''a.pdf''"
        start_loop single_view None None]
    unfolding f by blast
  have r3: "processingDetails (snd (checkStatus True ''job-1'' ''a.pdf'' first_rejected
        (start_loop, single_view))) = processingDetails single_view"
    using b handleUpload_initial_state [of empty_view "''a.pdf''" single_body two_details
        first_rejected "''job-1''" True "''a.pdf''" start_loop single_view None None]
    by blast
  have r4: "map status (processingDetails (snd (checkStatus True ''job-1'' ''a.pdf'' always_finished
        (start_loop, single_view)))) = [''complete'']"
    using c d handleUpload_initial_state [of empty_view "''a.pdf''" single_body two_details
        always_finished "''job-1''" True "''a.pdf''" start_loop single_view "Some ''finished''" None]
      e
    by simp
  from a m b c d r1 r2 r3 r4 show ?thesis
    by blast
qed

end
